theory Spec2Isabelle
  imports Complex_Main "HOL-Library.AList" "HOL-Library.Char_ord" "HOL-Library.List_Lexorder"
begin

section \<open>Data frames\<close>

text \<open>
  The pipeline works on pandas data frames. A float of such a frame is a real number or
  one of the two infinities (the rounding of the finite values is idealised away; the
  float that is no number is the missing value of a cell, below). The order of the floats
  is the one of the comparisons \<open><\<close> and \<open>>\<close> of numpy.
\<close>

datatype float64 = Fin real | PInf | NInf

instantiation float64 :: "{zero, linorder}"
begin

definition zero_float64 :: float64 where
  "0 = Fin 0"

definition less_eq_float64 :: "float64 \<Rightarrow> float64 \<Rightarrow> bool" where
  "x \<le> y =
     (case x of
        NInf \<Rightarrow> True
      | Fin a \<Rightarrow> (case y of Fin b \<Rightarrow> a \<le> b | PInf \<Rightarrow> True | NInf \<Rightarrow> False)
      | PInf \<Rightarrow> (case y of PInf \<Rightarrow> True | _ \<Rightarrow> False))"

definition less_float64 :: "float64 \<Rightarrow> float64 \<Rightarrow> bool" where
  "x < y = (x \<le> y \<and> \<not> y \<le> (x :: float64))"

instance
  by standard (auto simp: less_eq_float64_def less_float64_def split: float64.splits)

end

text \<open>
  A cell is one of the values a frame holds in this program: an integer, a float, a
  string, a boolean, a timestamp (a clock reading) or the missing value. A frame is the
  ordered list of its named columns; every column of a frame read from a file has one
  cell per row.
\<close>

datatype cell = IntC int | NumC float64 | StrC string | BoolC bool | TimeC int | NaN

type_synonym column = "cell list"

type_synonym frame = "(string \<times> column) list"

datatype error =
  KeyError string | IntCastingNaNError | ZeroDivisionError | StoreError string | OSError string

definition ebind :: "error + 'a \<Rightarrow> ('a \<Rightarrow> error + 'b) \<Rightarrow> error + 'b" where
  "ebind m f = (case m of Inl e \<Rightarrow> Inl e | Inr x \<Rightarrow> f x)"

text \<open>\<open>df[c]\<close>: reading a column raises \<open>KeyError\<close> when the frame has no such column.\<close>

definition get_col :: "frame \<Rightarrow> string \<Rightarrow> error + column" where
  "get_col df c = (case map_of df c of None \<Rightarrow> Inl (KeyError c) | Some v \<Rightarrow> Inr v)"

text \<open>\<open>df[c] = v\<close>: overwrites the column in place, or appends it as the last column.\<close>

definition set_col :: "frame \<Rightarrow> string \<Rightarrow> column \<Rightarrow> frame" where
  "set_col df c v = AList.update c v df"

text \<open>\<open>df[dst] = f(df[src])\<close> for a cell-wise operation \<open>f\<close>.\<close>

definition assign_from :: "frame \<Rightarrow> string \<Rightarrow> string \<Rightarrow> (cell \<Rightarrow> cell) \<Rightarrow> error + frame" where
  "assign_from df dst src f = ebind (get_col df src) (\<lambda>v. Inr (set_col df dst (map f v)))"

text \<open>\<open>df.drop(c, axis=1)\<close> raises \<open>KeyError\<close> when the column is absent.\<close>

definition drop_col :: "frame \<Rightarrow> string \<Rightarrow> error + frame" where
  "drop_col df c = (case map_of df c of None \<Rightarrow> Inl (KeyError c) | Some _ \<Rightarrow> Inr (AList.delete c df))"

text \<open>\<open>df.rename(columns=mapping)\<close>: names outside the mapping stay; nothing is raised.\<close>

definition rename_columns :: "(string \<times> string) list \<Rightarrow> frame \<Rightarrow> frame" where
  "rename_columns mapping df =
     map (\<lambda>(k, v). (case map_of mapping k of None \<Rightarrow> k | Some k' \<Rightarrow> k', v)) df"

text \<open>\<open>len(df)\<close>: the number of rows.\<close>

definition nrows :: "frame \<Rightarrow> nat" where
  "nrows df = (case df of [] \<Rightarrow> 0 | (_, v) # _ \<Rightarrow> length v)"

text \<open>\<open>df[cols]\<close> with a list of names: the named columns in that order.\<close>

fun select_cols :: "frame \<Rightarrow> string list \<Rightarrow> error + frame" where
  "select_cols df [] = Inr []"
| "select_cols df (c # cs) =
     ebind (get_col df c) (\<lambda>v. ebind (select_cols df cs) (\<lambda>r. Inr ((c, v) # r)))"

subsection \<open>Cell-wise operations of pandas and numpy\<close>

text \<open>
  The program pins no version of pandas, and two things it relies on are the library's
  own: the parser of numbers in strings, and what \<open>astype(str)\<close> makes of a missing
  value (the text \<open>nan\<close> before pandas 3, the missing value itself from pandas 3 on).
  Both are a parameter \<open>lib\<close> of the model.
\<close>

datatype pandas_version = Pandas2 | Pandas3

record pandas =
  version :: pandas_version
  parse_number :: "string \<Rightarrow> float64 option"

text \<open>
  \<open>pd.to_numeric(..., errors='coerce')\<close>: a number stays, a string is parsed by the
  library's parser (\<open>None\<close> where the string is no number); everything else that is no
  number becomes the missing value.
\<close>

definition to_numeric :: "pandas \<Rightarrow> cell \<Rightarrow> float64 option" where
  "to_numeric lib c =
     (case c of IntC i \<Rightarrow> Some (Fin (of_int i)) | NumC x \<Rightarrow> Some x
      | StrC s \<Rightarrow> parse_number lib s | BoolC b \<Rightarrow> Some (Fin (of_bool b))
      | TimeC _ \<Rightarrow> None | NaN \<Rightarrow> None)"

definition fillna :: "float64 \<Rightarrow> float64 option \<Rightarrow> float64" where
  "fillna d x = (case x of None \<Rightarrow> d | Some y \<Rightarrow> y)"

text \<open>
  \<open>astype(int)\<close> on a column of floats gives a column of 64-bit integers. pandas first
  refuses the column when one of its values is infinite (\<open>IntCastingNaNError\<close>: cannot
  convert non-finite values to integer); then numpy casts every value: the fraction is
  dropped (rounding towards zero), and a value outside the range of the 64-bit integers
  becomes the least of them, \<open>-2\<^sup>6\<^sup>3\<close>, which is what the conversion
  instruction of x86-64 leaves. (\<open>int\<close> is the 64-bit integer of numpy, as on Linux,
  where the paths of the pipeline are.)
\<close>

definition is_finite :: "float64 \<Rightarrow> bool" where
  "is_finite x = (case x of Fin _ \<Rightarrow> True | _ \<Rightarrow> False)"

definition float_to_int64 :: "float64 \<Rightarrow> int" where
  "float_to_int64 x =
     (case x of
        Fin r \<Rightarrow>
          (let n = (if 0 \<le> r then \<lfloor>r\<rfloor> else \<lceil>r\<rceil>)
           in if - (2 ^ 63) \<le> n \<and> n < 2 ^ 63 then n else - (2 ^ 63))
      | _ \<Rightarrow> - (2 ^ 63))"

definition astype_int :: "float64 list \<Rightarrow> error + int list" where
  "astype_int v =
     (if list_all is_finite v then Inr (map float_to_int64 v) else Inl IntCastingNaNError)"

text \<open>\<open>Series.replace(a, b)\<close>.\<close>

definition replace_value :: "cell \<Rightarrow> cell \<Rightarrow> cell \<Rightarrow> cell" where
  "replace_value a b c = (if c = a then b else c)"

text \<open>
  \<open>Series.map(dict)\<close>: a value that is no key of the dictionary becomes the missing
  value; nothing is raised.
\<close>

definition map_dict :: "(cell \<times> cell) list \<Rightarrow> cell \<Rightarrow> cell" where
  "map_dict d c = (case map_of d c of None \<Rightarrow> NaN | Some v \<Rightarrow> v)"

text \<open>
  The keys \<open>1\<close> and \<open>0\<close> of a Python dictionary are also found by the equal values
  \<open>1.0\<close>, \<open>True\<close>, \<open>0.0\<close> and \<open>False\<close>.
\<close>

definition dict_key :: "cell \<Rightarrow> cell" where
  "dict_key c =
     (case c of
        NumC x \<Rightarrow>
          (case x of Fin r \<Rightarrow> (if r = of_int \<lfloor>r\<rfloor> then IntC \<lfloor>r\<rfloor> else c) | _ \<Rightarrow> c)
      | BoolC b \<Rightarrow> IntC (of_bool b) | _ \<Rightarrow> c)"

text \<open>
  \<open>Series.str.title()\<close> on ASCII letters; a cell that is no string becomes the missing
  value. The column is taken to hold text, as the gender column of the source file does
  (pandas refuses the \<open>str\<close> accessor on a column of numbers).
\<close>

definition is_upper :: "char \<Rightarrow> bool" where
  "is_upper c = (65 \<le> (of_char c :: nat) \<and> (of_char c :: nat) \<le> 90)"

definition is_lower :: "char \<Rightarrow> bool" where
  "is_lower c = (97 \<le> (of_char c :: nat) \<and> (of_char c :: nat) \<le> 122)"

definition to_upper :: "char \<Rightarrow> char" where
  "to_upper c = (if is_lower c then char_of ((of_char c :: nat) - 32) else c)"

definition to_lower :: "char \<Rightarrow> char" where
  "to_lower c = (if is_upper c then char_of ((of_char c :: nat) + 32) else c)"

fun title_from :: "bool \<Rightarrow> string \<Rightarrow> string" where
  "title_from prev [] = []"
| "title_from prev (c # cs) =
     (if is_upper c \<or> is_lower c
      then (if prev then to_lower c else to_upper c) # title_from True cs
      else c # title_from False cs)"

definition str_title :: "cell \<Rightarrow> cell" where
  "str_title c = (case c of StrC s \<Rightarrow> StrC (title_from False s) | _ \<Rightarrow> NaN)"

text \<open>
  \<open>pd.cut(x, bins, labels, include_lowest=True)\<close> on an integer: the intervals are open
  on the left and closed on the right, the first one also holds its left edge, and a
  value in no interval gets the missing category.
\<close>

fun cut_right :: "int list \<Rightarrow> string list \<Rightarrow> int \<Rightarrow> cell" where
  "cut_right (lo # hi # bs) (l # ls) x =
     (if lo < x \<and> x \<le> hi then StrC l else cut_right (hi # bs) ls x)"
| "cut_right _ _ x = NaN"

definition pd_cut :: "int list \<Rightarrow> string list \<Rightarrow> cell \<Rightarrow> cell" where
  "pd_cut bins labels c =
     (case c of
        IntC x \<Rightarrow>
          (case (bins, labels) of
             (lo # hi # bs, l # ls) \<Rightarrow>
               (if lo \<le> x \<and> x \<le> hi then StrC l else cut_right (hi # bs) ls x)
           | _ \<Rightarrow> NaN)
      | _ \<Rightarrow> NaN)"

text \<open>
  \<open>astype(str)\<close> on a categorical: a label stays; the missing category becomes the text
  \<open>nan\<close> before pandas 3 and stays the missing value from pandas 3 on.
\<close>

definition missing_category :: "pandas \<Rightarrow> cell" where
  "missing_category lib = (case version lib of Pandas2 \<Rightarrow> StrC ''nan'' | Pandas3 \<Rightarrow> NaN)"

definition astype_str :: "pandas \<Rightarrow> cell \<Rightarrow> cell" where
  "astype_str lib c = (case c of StrC s \<Rightarrow> StrC s | _ \<Rightarrow> missing_category lib)"

text \<open>The comparisons \<open>x > 0\<close> and \<open>x < 0\<close> of a numeric column.\<close>

definition gt0 :: "cell \<Rightarrow> bool" where
  "gt0 c = (case c of IntC i \<Rightarrow> 0 < i | NumC x \<Rightarrow> 0 < x | _ \<Rightarrow> False)"

definition lt0 :: "cell \<Rightarrow> bool" where
  "lt0 c = (case c of IntC i \<Rightarrow> i < 0 | NumC x \<Rightarrow> x < 0 | _ \<Rightarrow> False)"

text \<open>
  The float division \<open>total_charges / tenure\<close> of a float by an integer, as numpy does
  it: a finite value divided by 0 is an infinity, or no number for \<open>0 / 0\<close>, and an
  infinity divided by an integer is an infinity.
\<close>

definition float_div :: "float64 \<Rightarrow> int \<Rightarrow> float64 option" where
  "float_div x n =
     (case x of
        Fin r \<Rightarrow>
          (if n = 0 then (if r = 0 then None else Some (if 0 < r then PInf else NInf))
           else Some (Fin (r / of_int n)))
      | PInf \<Rightarrow> Some (if 0 \<le> n then PInf else NInf)
      | NInf \<Rightarrow> Some (if 0 \<le> n then NInf else PInf))"

definition true_div :: "cell \<Rightarrow> cell \<Rightarrow> cell" where
  "true_div a b =
     (case (a, b) of
        (NumC x, IntC n) \<Rightarrow> (case float_div x n of None \<Rightarrow> NaN | Some y \<Rightarrow> NumC y)
      | _ \<Rightarrow> NaN)"

text \<open>\<open>np.where(cond, a, b)\<close>, row by row.\<close>

fun np_where :: "bool list \<Rightarrow> column \<Rightarrow> column \<Rightarrow> column" where
  "np_where (c # cs) (a # as) (b # bs) = (if c then a else b) # np_where cs as bs"
| "np_where _ _ _ = []"

text \<open>
  \<open>Series.duplicated()\<close>: true at every occurrence of a value after its first one.
\<close>

fun duplicated_from :: "cell list \<Rightarrow> column \<Rightarrow> bool list" where
  "duplicated_from seen [] = []"
| "duplicated_from seen (x # xs) = (x \<in> set seen) # duplicated_from (x # seen) xs"

definition duplicated :: "column \<Rightarrow> bool list" where
  "duplicated ids = duplicated_from [] ids"

text \<open>Selecting the rows of a column at which a mask is true.\<close>

fun keep_rows :: "bool list \<Rightarrow> 'a list \<Rightarrow> 'a list" where
  "keep_rows (m # ms) (x # xs) = (if m then x # keep_rows ms xs else keep_rows ms xs)"
| "keep_rows _ _ = []"

text \<open>\<open>mask.sum()\<close>: the number of rows at which a mask is true.\<close>

definition mask_sum :: "bool list \<Rightarrow> nat" where
  "mask_sum m = length (filter (\<lambda>b. b) m)"

text \<open>\<open>df.drop_duplicates(subset=['customer_id'], keep='first')\<close>: a new frame.\<close>

definition drop_duplicates :: "column \<Rightarrow> frame \<Rightarrow> frame" where
  "drop_duplicates ids df = map (\<lambda>(k, v). (k, keep_rows (map Not (duplicated ids)) v)) df"

text \<open>\<open>df.loc[mask, c] = z\<close>.\<close>

fun loc_assign :: "bool list \<Rightarrow> cell \<Rightarrow> column \<Rightarrow> column" where
  "loc_assign (m # ms) z (x # xs) = (if m then z else x) # loc_assign ms z xs"
| "loc_assign _ z xs = xs"

section \<open>The transformation (silver layer)\<close>

subsection \<open>Step 1: column renaming\<close>

definition column_mapping :: "(string \<times> string) list" where
  "column_mapping =
     [(''customerID'', ''customer_id''),
      (''gender'', ''gender''),
      (''SeniorCitizen'', ''senior_citizen''),
      (''Partner'', ''partner''),
      (''Dependents'', ''dependents''),
      (''tenure'', ''tenure''),
      (''PhoneService'', ''phone_service''),
      (''MultipleLines'', ''multiple_lines''),
      (''InternetService'', ''internet_service''),
      (''OnlineSecurity'', ''online_security''),
      (''OnlineBackup'', ''online_backup''),
      (''DeviceProtection'', ''device_protection''),
      (''TechSupport'', ''tech_support''),
      (''StreamingTV'', ''streaming_tv''),
      (''StreamingMovies'', ''streaming_movies''),
      (''Contract'', ''contract_type''),
      (''PaperlessBilling'', ''paperless_billing''),
      (''PaymentMethod'', ''payment_method''),
      (''MonthlyCharges'', ''monthly_charges''),
      (''TotalCharges'', ''total_charges''),
      (''Churn'', ''churn'')]"

definition standardize_columns :: "frame \<Rightarrow> frame" where
  "standardize_columns df = rename_columns column_mapping df"

subsection \<open>Step 2: missing values\<close>

definition handle_missing :: "pandas \<Rightarrow> frame \<Rightarrow> error + frame" where
  "handle_missing lib df =
     ebind (assign_from df ''total_charges'' ''total_charges''
              (replace_value (StrC '' '') (StrC ''0'')))
       (\<lambda>df. assign_from df ''total_charges'' ''total_charges''
                (\<lambda>c. NumC (fillna 0 (to_numeric lib c))))"

subsection \<open>Step 3: data type conversion\<close>

definition boolean_mapping :: "(cell \<times> cell) list" where
  "boolean_mapping =
     [(StrC ''Yes'', BoolC True), (StrC ''No'', BoolC False),
      (StrC ''No phone service'', BoolC False), (StrC ''No internet service'', BoolC False)]"

text \<open>\<open>df[c] = pd.to_numeric(df[c], errors='coerce').fillna(0).astype(int)\<close>.\<close>

definition to_int_column :: "pandas \<Rightarrow> frame \<Rightarrow> string \<Rightarrow> error + frame" where
  "to_int_column lib df c =
     ebind (get_col df c)
    (\<lambda>v. ebind (astype_int (map (\<lambda>x. fillna 0 (to_numeric lib x)) v))
    (\<lambda>w. Inr (set_col df c (map IntC w))))"

definition convert_types :: "pandas \<Rightarrow> frame \<Rightarrow> error + frame" where
  "convert_types lib df =
     ebind (to_int_column lib df ''tenure'')
    (\<lambda>df. ebind (assign_from df ''monthly_charges'' ''monthly_charges''
              (\<lambda>c. NumC (fillna 0 (to_numeric lib c))))
    (\<lambda>df. ebind (assign_from df ''total_charges'' ''total_charges''
              (\<lambda>c. NumC (fillna 0 (to_numeric lib c))))
    (\<lambda>df. ebind (assign_from df ''senior_citizen'' ''senior_citizen''
              (\<lambda>c. map_dict [(IntC 1, BoolC True), (IntC 0, BoolC False)] (dict_key c)))
    (\<lambda>df. ebind (assign_from df ''partner'' ''partner'' (map_dict boolean_mapping))
    (\<lambda>df. ebind (assign_from df ''dependents'' ''dependents'' (map_dict boolean_mapping))
    (\<lambda>df. ebind (assign_from df ''phone_service'' ''phone_service'' (map_dict boolean_mapping))
    (\<lambda>df. ebind (assign_from df ''paperless_billing'' ''paperless_billing''
              (map_dict boolean_mapping))
    (\<lambda>df. ebind (assign_from df ''churned'' ''churn''
              (map_dict [(StrC ''Yes'', BoolC True), (StrC ''No'', BoolC False)]))
    (\<lambda>df. drop_col df ''churn'')))))))))"

subsection \<open>Step 4: categorical values\<close>

definition service_columns :: "string list" where
  "service_columns =
     [''online_security'', ''online_backup'', ''device_protection'',
      ''tech_support'', ''streaming_tv'', ''streaming_movies'']"

fun replace_in_columns :: "cell \<Rightarrow> cell \<Rightarrow> string list \<Rightarrow> frame \<Rightarrow> error + frame" where
  "replace_in_columns a b [] df = Inr df"
| "replace_in_columns a b (c # cs) df =
     ebind (assign_from df c c (replace_value a b)) (replace_in_columns a b cs)"

definition standardize_categoricals :: "frame \<Rightarrow> error + frame" where
  "standardize_categoricals df =
     ebind (assign_from df ''gender'' ''gender'' str_title)
    (\<lambda>df. ebind (replace_in_columns (StrC ''No internet service'') (StrC ''No'')
                   service_columns df)
    (\<lambda>df. assign_from df ''multiple_lines'' ''multiple_lines''
             (replace_value (StrC ''No phone service'') (StrC ''No''))))"

subsection \<open>Step 5: derived fields\<close>

definition derive_fields :: "pandas \<Rightarrow> frame \<Rightarrow> error + frame" where
  "derive_fields lib df =
     ebind (get_col df ''tenure'')
    (\<lambda>tenure. ebind (get_col df ''total_charges'')
    (\<lambda>total. ebind (get_col df ''tenure'')
    (\<lambda>tenure'. ebind (get_col df ''monthly_charges'')
    (\<lambda>monthly.
       let df = set_col df ''avg_monthly_revenue''
                  (np_where (map gt0 tenure) (map2 true_div total tenure') monthly)
       in ebind (assign_from df ''customer_segment'' ''tenure''
                   (pd_cut [0, 12, 36, 100] [''New'', ''Growing'', ''Loyal'']))
         (\<lambda>df. assign_from df ''customer_segment'' ''customer_segment'' (astype_str lib))))))"

subsection \<open>Steps 6 and 7: data quality validation and the summary\<close>

text \<open>The figures the function computes and logs on its way.\<close>

record report =
  initial_rows :: nat
  final_rows :: nat
  rows_removed :: int
  duplicates :: nat
  invalid_tenure :: nat
  invalid_charges :: nat
  null_values :: nat
  duplicate_ids_left :: nat

definition null_count :: "frame \<Rightarrow> nat" where
  "null_count df = sum_list (map (\<lambda>(k, v). length (filter (\<lambda>c. c = NaN) v)) df)"

text \<open>\<open>df_clean['customer_id'].duplicated().sum()\<close>.\<close>

definition count_duplicates :: "frame \<Rightarrow> error + nat" where
  "count_duplicates df =
     ebind (get_col df ''customer_id'') (\<lambda>ids. Inr (mask_sum (duplicated ids)))"

text \<open>\<open>df_clean.drop_duplicates(subset=['customer_id'], keep='first')\<close>: a new frame.\<close>

definition remove_duplicates :: "frame \<Rightarrow> error + frame" where
  "remove_duplicates df =
     ebind (get_col df ''customer_id'') (\<lambda>ids. Inr (drop_duplicates ids df))"

text \<open>
  The check for invalid values: both counts are taken first, then each column is repaired
  in place where its count is positive.
\<close>

definition repair_ranges :: "frame \<Rightarrow> error + frame \<times> nat \<times> nat" where
  "repair_ranges df =
     ebind (get_col df ''tenure'')
    (\<lambda>tenure. ebind (get_col df ''monthly_charges'')
    (\<lambda>monthly.
       let bad_tenure = mask_sum (map lt0 tenure);
           bad_charges = mask_sum (map lt0 monthly);
           df = (if 0 < bad_tenure
                 then set_col df ''tenure'' (loc_assign (map lt0 tenure) (IntC 0) tenure)
                 else df)
       in ebind (if 0 < bad_charges
                 then ebind (get_col df ''monthly_charges'')
                        (\<lambda>m. Inr (set_col df ''monthly_charges''
                                     (loc_assign (map lt0 m) (NumC 0) m)))
                 else Inr df)
            (\<lambda>df. Inr (df, bad_tenure, bad_charges))))"

definition summarize :: "nat \<Rightarrow> nat \<Rightarrow> nat \<Rightarrow> nat \<Rightarrow> frame \<Rightarrow> error + report" where
  "summarize initial dups bad_tenure bad_charges df =
     ebind (get_col df ''customer_id'')
       (\<lambda>ids. Inr \<lparr>initial_rows = initial, final_rows = nrows df,
                    rows_removed = int initial - int (nrows df),
                    duplicates = dups, invalid_tenure = bad_tenure,
                    invalid_charges = bad_charges, null_values = null_count df,
                    duplicate_ids_left = mask_sum (duplicated ids)\<rparr>)"

definition validate_quality :: "nat \<Rightarrow> frame \<Rightarrow> error + frame \<times> report" where
  "validate_quality initial df =
     ebind (count_duplicates df)
    (\<lambda>dups. ebind (if 0 < dups then remove_duplicates df else Inr df)
    (\<lambda>df. ebind (repair_ranges df)
    (\<lambda>(df, bad_tenure, bad_charges).
       ebind (summarize initial dups bad_tenure bad_charges df) (\<lambda>rep. Inr (df, rep)))))"

subsection \<open>The transformation of one frame\<close>

text \<open>Steps 1 to 5, and with them step 6: the frame and the figures of a given frame.\<close>

definition transform_fields :: "pandas \<Rightarrow> frame \<Rightarrow> error + frame" where
  "transform_fields lib df =
     ebind (handle_missing lib (standardize_columns df))
    (\<lambda>df. ebind (convert_types lib df)
    (\<lambda>df. ebind (standardize_categoricals df) (derive_fields lib)))"

definition clean_frame :: "pandas \<Rightarrow> frame \<Rightarrow> error + frame \<times> report" where
  "clean_frame lib df = ebind (transform_fields lib df) (validate_quality (nrows df))"

subsection \<open>\<open>clean_and_transform\<close> on the heap\<close>

text \<open>
  A frame is a mutable object and the function is handed a reference to it. The heap holds
  the object of every reference; references below \<open>next_ref\<close> are in use. The function
  copies its argument into a new object and then renames, assigns and drops in place on
  that copy; \<open>drop_duplicates\<close> returns another new object, to which the local name is
  rebound.
\<close>

record heap =
  objs :: "nat \<Rightarrow> frame"
  next_ref :: nat

definition alloc :: "heap \<Rightarrow> frame \<Rightarrow> heap \<times> nat" where
  "alloc h f = (h\<lparr>objs := (objs h)(next_ref h := f), next_ref := Suc (next_ref h)\<rparr>, next_ref h)"

definition in_place :: "heap \<Rightarrow> nat \<Rightarrow> (frame \<Rightarrow> error + frame) \<Rightarrow> error + heap" where
  "in_place h r f = ebind (f (objs h r)) (\<lambda>df. Inr (h\<lparr>objs := (objs h)(r := df)\<rparr>))"

definition in_place_with ::
  "heap \<Rightarrow> nat \<Rightarrow> (frame \<Rightarrow> error + frame \<times> 'a) \<Rightarrow> error + heap \<times> 'a" where
  "in_place_with h r f =
     ebind (f (objs h r)) (\<lambda>(df, x). Inr (h\<lparr>objs := (objs h)(r := df)\<rparr>, x))"

definition clean_and_transform ::
  "pandas \<Rightarrow> heap \<Rightarrow> nat \<Rightarrow> error + heap \<times> nat \<times> report" where
  "clean_and_transform lib h df =
     (case alloc h (objs h df) of (h, df_clean) \<Rightarrow>
        let initial = nrows (objs h df_clean)
        in ebind (in_place h df_clean (\<lambda>f. Inr (standardize_columns f)))
          (\<lambda>h. ebind (in_place h df_clean (handle_missing lib))
          (\<lambda>h. ebind (in_place h df_clean (convert_types lib))
          (\<lambda>h. ebind (in_place h df_clean standardize_categoricals)
          (\<lambda>h. ebind (in_place h df_clean (derive_fields lib))
          (\<lambda>h. ebind (count_duplicates (objs h df_clean))
          (\<lambda>dups. ebind (if 0 < dups
                          then ebind (remove_duplicates (objs h df_clean)) (\<lambda>f. Inr (alloc h f))
                          else Inr (h, df_clean))
          (\<lambda>(h, df_clean). ebind (in_place_with h df_clean repair_ranges)
          (\<lambda>(h, bad_tenure, bad_charges).
             ebind (summarize initial dups bad_tenure bad_charges (objs h df_clean))
               (\<lambda>rep. Inr (h, df_clean, rep)))))))))))"

subsection \<open>Plain decimal literals\<close>

text \<open>
  The strings of the source file's numeric columns are plain decimal literals: an optional
  sign, digits, and an optional fraction. This parser reads those, and the spellings
  \<open>inf\<close> and \<open>infinity\<close> of the infinities, which pandas' parser reads in any
  letter case; it stands for pandas' parser where a concrete input is run, in \<open>pandas2\<close>
  for a pandas before version 3 and in \<open>pandas3\<close> for a later one.
\<close>

definition is_digit :: "char \<Rightarrow> bool" where
  "is_digit c = (48 \<le> (of_char c :: nat) \<and> (of_char c :: nat) \<le> 57)"

definition digits_value :: "string \<Rightarrow> int" where
  "digits_value s = foldl (\<lambda>n c. 10 * n + ((of_char c :: int) - 48)) 0 s"

definition parse_unsigned :: "string \<Rightarrow> float64 option" where
  "parse_unsigned s =
     (if map to_lower s = ''inf'' \<or> map to_lower s = ''infinity'' then Some PInf
      else
        (let ip = takeWhile is_digit s; rest = dropWhile is_digit s
         in case rest of
              [] \<Rightarrow> (if ip = [] then None else Some (Fin (of_int (digits_value ip))))
            | c # fp \<Rightarrow>
                (if c = CHR ''.'' \<and> list_all is_digit fp \<and> \<not> (ip = [] \<and> fp = [])
                 then Some (Fin (of_int (digits_value ip)
                                + of_int (digits_value fp) / 10 ^ length fp))
                 else None)))"

definition negate :: "float64 \<Rightarrow> float64" where
  "negate x = (case x of Fin r \<Rightarrow> Fin (- r) | PInf \<Rightarrow> NInf | NInf \<Rightarrow> PInf)"

definition parse_decimal :: "string \<Rightarrow> float64 option" where
  "parse_decimal s =
     (case s of
        [] \<Rightarrow> None
      | c # cs \<Rightarrow>
          (if c = CHR ''-'' then map_option negate (parse_unsigned cs)
           else if c = CHR ''+'' then parse_unsigned cs
           else parse_unsigned s))"

definition pandas2 :: pandas where
  "pandas2 = \<lparr>version = Pandas2, parse_number = parse_decimal\<rparr>"

definition pandas3 :: pandas where
  "pandas3 = \<lparr>version = Pandas3, parse_number = parse_decimal\<rparr>"

section \<open>The staging store\<close>

text \<open>
  The relational store holds a table under each name it knows. It is reached through the
  connector, whose own failures (an unreachable server, a refused login) are outside this
  model: a statement of the program either works on the tables or is refused for what
  the tables hold.
\<close>

type_synonym store = "string \<Rightarrow> frame option"

definition column_order :: "string list" where
  "column_order =
     [''customer_id'', ''gender'', ''senior_citizen'', ''partner'', ''dependents'',
      ''tenure'', ''phone_service'', ''multiple_lines'', ''internet_service'',
      ''online_security'', ''online_backup'', ''device_protection'', ''tech_support'',
      ''streaming_tv'', ''streaming_movies'', ''contract_type'', ''paperless_billing'',
      ''payment_method'', ''monthly_charges'', ''total_charges'', ''avg_monthly_revenue'',
      ''customer_segment'', ''churned'', ''ingestion_timestamp'']"

text \<open>
  \<open>load_to_silver\<close>: the clock is read once (\<open>now\<close>), the timestamp column is added to the
  caller's frame in place, and the ordered selection replaces the staging table
  (\<open>if_exists='replace'\<close>). The frame as the caller finds it afterwards is returned with
  the store.
\<close>

definition load_to_silver :: "int \<Rightarrow> frame \<Rightarrow> store \<Rightarrow> error + frame \<times> store" where
  "load_to_silver now df st =
     (let df = set_col df ''ingestion_timestamp'' (replicate (nrows df) (TimeC now))
      in ebind (select_cols df column_order)
           (\<lambda>sel. Inr (df, st(''silver.customers_staging'' := Some sel))))"

text \<open>The queries of \<open>validate_silver_data\<close>, on the table they read.\<close>

definition sql_column :: "frame \<Rightarrow> string \<Rightarrow> error + column" where
  "sql_column t c =
     (case map_of t c of None \<Rightarrow> Inl (StoreError (''column does not exist: '' @ c))
      | Some v \<Rightarrow> Inr v)"

definition text_of :: "cell \<Rightarrow> string option" where
  "text_of c = (case c of StrC s \<Rightarrow> Some s | _ \<Rightarrow> None)"

text \<open>
  \<open>GROUP BY customer_segment ORDER BY customer_segment\<close>: one row per segment with the
  number of its records, the texts in ascending order (here the order of their
  characters; the store sorts by its collation) and the group of nulls last.
\<close>

definition segment_groups :: "column \<Rightarrow> (string option \<times> nat) list" where
  "segment_groups seg =
     (let keys = map text_of seg;
          texts = sort (remdups (concat (map (\<lambda>k. case k of None \<Rightarrow> [] | Some s \<Rightarrow> [s]) keys)));
          groups = map Some texts @ (if None \<in> set keys then [None] else [])
      in map (\<lambda>k. (k, length (filter (\<lambda>k'. k' = k) keys))) groups)"

record validation =
  total_records :: nat
  unique_customers :: nat
  churned_count :: nat
  null_check :: nat
  segment_distribution :: "(string option \<times> nat) list"

text \<open>
  \<open>validate_silver_data\<close> runs its five queries, logs the figures, among them the churn
  rate \<open>churned_count / total_records * 100\<close>, saves them to the file
  \<open>validation_results.json\<close> and returns them. Making the directory, opening the file
  and dumping the figures as JSON are the file system's part: \<open>write_json fs path v\<close> is
  the file system after the three, or the error one of them raised.
\<close>

definition validation_file :: string where
  "validation_file = ''/opt/pipeline/data/silver/validation_results.json''"

definition validate_silver_data ::
  "('fs \<Rightarrow> string \<Rightarrow> validation \<Rightarrow> error + 'fs) \<Rightarrow> store \<Rightarrow> 'fs \<Rightarrow> error + 'fs \<times> validation" where
  "validate_silver_data write_json st fs =
     (case st ''silver.customers_staging'' of
        None \<Rightarrow> Inl (StoreError ''relation does not exist: silver.customers_staging'')
      | Some t \<Rightarrow>
          ebind (sql_column t ''customer_id'')
         (\<lambda>ids. ebind (sql_column t ''churned'')
         (\<lambda>churned. ebind (sql_column t ''customer_segment'')
         (\<lambda>seg.
            let results =
                  \<lparr>total_records = nrows t,
                   unique_customers = length (remdups (filter (\<lambda>c. \<not> c = NaN) ids)),
                   churned_count = length (filter (\<lambda>c. c = BoolC True) churned),
                   null_check = length (filter (\<lambda>c. c = NaN) ids),
                   segment_distribution = segment_groups seg\<rparr>
            in if total_records results = 0 then Inl ZeroDivisionError
               else ebind (write_json fs validation_file results)
                      (\<lambda>fs. Inr (fs, results))))))"

text \<open>
  \<open>main\<close> of the transformation: the bronze frame is cleaned, the staging script
  \<open>silver_staging.sql\<close> is run (its text is not part of the program: \<open>ddl\<close> is what it
  does to the store), the frame is loaded and the store is queried.
\<close>

definition transformation_main ::
  "(store \<Rightarrow> error + store) \<Rightarrow> ('fs \<Rightarrow> string \<Rightarrow> validation \<Rightarrow> error + 'fs) \<Rightarrow> int \<Rightarrow> pandas
     \<Rightarrow> frame \<Rightarrow> store \<Rightarrow> 'fs \<Rightarrow> error + store \<times> 'fs \<times> report \<times> validation" where
  "transformation_main ddl write_json now lib df_raw st fs =
     ebind (clean_frame lib df_raw)
    (\<lambda>(df_clean, rep). ebind (ddl st)
    (\<lambda>st. ebind (load_to_silver now df_clean st)
    (\<lambda>(_, st). ebind (validate_silver_data write_json st fs)
    (\<lambda>(fs, results). Inr (st, fs, rep, results)))))"

section \<open>The gold models\<close>

text \<open>Python's \<open>startswith\<close>, \<open>in\<close>, \<open>lower\<close>, \<open>strip\<close> and \<open>split\<close> on ASCII strings.\<close>

fun startswith :: "string \<Rightarrow> string \<Rightarrow> bool" where
  "startswith s [] = True"
| "startswith [] (p # ps) = False"
| "startswith (c # cs) (p # ps) = (c = p \<and> startswith cs ps)"

fun contains :: "string \<Rightarrow> string \<Rightarrow> bool" where
  "contains [] sub = (sub = [])"
| "contains (c # cs) sub = (startswith (c # cs) sub \<or> contains cs sub)"

definition lower :: "string \<Rightarrow> string" where
  "lower s = map to_lower s"

definition is_space :: "char \<Rightarrow> bool" where
  "is_space c =
     ((of_char c :: nat) = 32 \<or> (9 \<le> (of_char c :: nat) \<and> (of_char c :: nat) \<le> 13)
      \<or> (28 \<le> (of_char c :: nat) \<and> (of_char c :: nat) \<le> 31))"

definition strip :: "string \<Rightarrow> string" where
  "strip s = rev (dropWhile is_space (rev (dropWhile is_space s)))"

fun split_on :: "char \<Rightarrow> string \<Rightarrow> string list" where
  "split_on d [] = [[]]"
| "split_on d (c # cs) =
     (if c = d then [] # split_on d cs
      else (case split_on d cs of [] \<Rightarrow> [[c]] | w # ws \<Rightarrow> (c # w) # ws))"

definition split_statements :: "string \<Rightarrow> string list" where
  "split_statements script =
     filter (\<lambda>s. \<not> s = []) (map strip (split_on CHR '';'' script))"

text \<open>
  The loop over the statements: a failure is passed over when its lowered message holds
  one of two phrases, and raised again otherwise. \<open>exec\<close> runs one statement in a transaction of its own
  on the store: \<open>Inr\<close> the store after it, or \<open>Inl\<close> the message of the exception it
  raised, the store being left as it was.
\<close>

fun run_statements ::
  "('st \<Rightarrow> string \<Rightarrow> string + 'st) \<Rightarrow> string list \<Rightarrow> 'st \<Rightarrow> error + 'st" where
  "run_statements exec [] st = Inr st"
| "run_statements exec (statement # rest) st =
     (if statement = [] \<or> startswith statement ''--'' then run_statements exec rest st
      else (case exec st statement of
              Inr st' \<Rightarrow> run_statements exec rest st'
            | Inl msg \<Rightarrow>
                (if \<not> contains (lower msg) ''does not exist''
                    \<and> \<not> contains (lower msg) ''already exists''
                 then Inl (StoreError msg)
                 else run_statements exec rest st)))"

definition build_gold_models ::
  "('st \<Rightarrow> string \<Rightarrow> string + 'st) \<Rightarrow> string \<Rightarrow> 'st \<Rightarrow> error + 'st" where
  "build_gold_models exec sql_script st = run_statements exec (split_statements sql_script) st"

section \<open>Notions for the statements\<close>

text \<open>
  A frame is rectangular when every column has one cell per row, as every frame read from
  a file is.
\<close>

definition cols_len :: "nat \<Rightarrow> frame \<Rightarrow> bool" where
  "cols_len n df = list_all (\<lambda>kv. length (snd kv) = n) df"

definition rectangular :: "frame \<Rightarrow> bool" where
  "rectangular df = list_all (\<lambda>kv. length (snd kv) = nrows df) df"

text \<open>
  The values the type conversion gives to the raw cells of \<open>tenure\<close> (the 64-bit
  integer of the cast), \<open>monthly_charges\<close> and \<open>total_charges\<close> (the latter after
  the replacement of the blank placeholder), and the quotient of a float by a positive
  integer.
\<close>

definition tenure_value :: "pandas \<Rightarrow> cell \<Rightarrow> int" where
  "tenure_value lib c = float_to_int64 (fillna 0 (to_numeric lib c))"

definition charge_value :: "pandas \<Rightarrow> cell \<Rightarrow> float64" where
  "charge_value lib c = fillna 0 (to_numeric lib c)"

definition total_value :: "pandas \<Rightarrow> cell \<Rightarrow> float64" where
  "total_value lib c = fillna 0 (to_numeric lib (replace_value (StrC '' '') (StrC ''0'') c))"

definition quotient :: "float64 \<Rightarrow> int \<Rightarrow> float64" where
  "quotient x n = (case x of Fin r \<Rightarrow> Fin (r / of_int n) | PInf \<Rightarrow> PInf | NInf \<Rightarrow> NInf)"

text \<open>A file system that takes every write, for running the validation.\<close>

definition write_ok :: "(string \<times> validation) list \<Rightarrow> string \<Rightarrow> validation
    \<Rightarrow> error + (string \<times> validation) list" where
  "write_ok fs path v = Inr ((path, v) # fs)"

text \<open>The rows of a column at which the customer id occurs for the first time.\<close>

definition first_rows :: "column \<Rightarrow> 'a list \<Rightarrow> 'a list" where
  "first_rows ids v = keep_rows (map Not (duplicated ids)) v"

text \<open>
  A frame as the source file gives it, for running the functions on concrete rows: the
  cells of five columns are given, the other columns repeat the file's first record.
\<close>

definition sample_frame :: "column \<Rightarrow> column \<Rightarrow> column \<Rightarrow> column \<Rightarrow> column \<Rightarrow> frame" where
  "sample_frame ids tn mc tc pa =
     (let k = replicate (length ids)
      in [(''customerID'', ids), (''gender'', k (StrC ''Female'')),
          (''SeniorCitizen'', k (IntC 0)), (''Partner'', pa),
          (''Dependents'', k (StrC ''No'')), (''tenure'', tn),
          (''PhoneService'', k (StrC ''No'')), (''MultipleLines'', k (StrC ''No phone service'')),
          (''InternetService'', k (StrC ''DSL'')), (''OnlineSecurity'', k (StrC ''No'')),
          (''OnlineBackup'', k (StrC ''Yes'')), (''DeviceProtection'', k (StrC ''No'')),
          (''TechSupport'', k (StrC ''No'')), (''StreamingTV'', k (StrC ''No'')),
          (''StreamingMovies'', k (StrC ''No'')), (''Contract'', k (StrC ''Month-to-month'')),
          (''PaperlessBilling'', k (StrC ''Yes'')), (''PaymentMethod'', k (StrC ''Electronic check'')),
          (''MonthlyCharges'', mc), (''TotalCharges'', tc), (''Churn'', k (StrC ''No''))])"


section \<open>Floats\<close>

lemma float64_le [simp]:
  "Fin a \<le> Fin b \<longleftrightarrow> a \<le> b" "NInf \<le> x" "x \<le> PInf" "\<not> PInf \<le> Fin a" "\<not> Fin a \<le> NInf"
  "\<not> PInf \<le> NInf"
  by (simp_all add: less_eq_float64_def split: float64.splits)

lemma float64_less [simp]:
  "Fin a < Fin b \<longleftrightarrow> a < b" "Fin a < PInf" "NInf < Fin a" "NInf < PInf" "\<not> x < NInf" "\<not> PInf < x"
  by (auto simp: less_float64_def less_eq_float64_def split: float64.splits)

lemma float64_max_zero [simp]:
  "max 0 (Fin a) = Fin (max 0 a)" "max 0 PInf = PInf" "max 0 NInf = 0"
  by (simp_all add: max_def zero_float64_def)

lemma float_div_pos: "0 < n \<Longrightarrow> float_div x n = Some (quotient x n)"
  by (cases x) (simp_all add: float_div_def quotient_def)

section \<open>Frames, column by column\<close>

lemma ebind_Inr: "ebind m f = Inr y \<longleftrightarrow> (\<exists>x. m = Inr x \<and> f x = Inr y)"
  by (cases m) (simp_all add: ebind_def)

lemma ebind_InrE: "ebind m f = Inr y \<Longrightarrow> (\<And>x. m = Inr x \<Longrightarrow> f x = Inr y \<Longrightarrow> P) \<Longrightarrow> P"
  by (auto simp: ebind_Inr)

lemma get_col_Inr: "get_col df c = Inr v \<longleftrightarrow> map_of df c = Some v"
  by (simp add: get_col_def split: option.splits)

lemma map_of_set_col: "map_of (set_col df c v) = (map_of df)(c \<mapsto> v)"
  by (simp add: set_col_def update_conv')

lemma cols_len_set_col: "cols_len n df \<Longrightarrow> length v = n \<Longrightarrow> cols_len n (set_col df c v)"
  unfolding cols_len_def set_col_def by (induction df) auto

lemma cols_len_map_of: "cols_len n df \<Longrightarrow> map_of df c = Some v \<Longrightarrow> length v = n"
  unfolding cols_len_def by (induction df) (auto split: if_splits)

lemma assign_from_Inr:
  "assign_from df dst src f = Inr df' \<longleftrightarrow>
     (\<exists>v. map_of df src = Some v \<and> df' = set_col df dst (map f v))"
  by (auto simp: assign_from_def ebind_Inr get_col_Inr)

lemma assign_from_map_of:
  "assign_from df dst src f = Inr df' \<Longrightarrow>
     \<exists>v. map_of df src = Some v \<and> map_of df' = (map_of df)(dst \<mapsto> map f v)"
  by (auto simp: assign_from_Inr map_of_set_col)

lemma assign_from_cols_len:
  "assign_from df dst src f = Inr df' \<Longrightarrow> cols_len n df \<Longrightarrow> cols_len n df'"
  by (auto simp: assign_from_Inr intro!: cols_len_set_col dest: cols_len_map_of)

lemma to_int_column_map_of:
  "to_int_column lib df c = Inr df' \<Longrightarrow>
     \<exists>v. map_of df c = Some v \<and> list_all (\<lambda>x. is_finite (fillna 0 (to_numeric lib x))) v \<and>
         map_of df' = (map_of df)(c \<mapsto> map (\<lambda>x. IntC (float_to_int64 (fillna 0 (to_numeric lib x)))) v)"
  by (auto simp: to_int_column_def astype_int_def ebind_Inr get_col_Inr map_of_set_col
      list_all_iff comp_def split: if_splits)

lemma to_int_column_cols_len:
  "to_int_column lib df c = Inr df' \<Longrightarrow> cols_len n df \<Longrightarrow> cols_len n df'"
  by (auto simp: to_int_column_def astype_int_def ebind_Inr get_col_Inr split: if_splits
      intro!: cols_len_set_col dest: cols_len_map_of)

lemma drop_col_Inr:
  "drop_col df c = Inr df' \<Longrightarrow> map_of df' = (map_of df)(c := None)"
  by (auto simp: drop_col_def delete_conv' split: option.splits)

lemma drop_col_cols_len: "drop_col df c = Inr df' \<Longrightarrow> cols_len n df \<Longrightarrow> cols_len n df'"
  by (auto simp: drop_col_def cols_len_def AList.delete_eq list_all_iff split: option.splits)

lemma handle_missing_map_of:
  assumes "handle_missing lib df = Inr df'"
  shows "\<exists>v. map_of df ''total_charges'' = Some v \<and>
          map_of df' = (map_of df)(''total_charges'' \<mapsto>
             map (\<lambda>c. NumC (fillna 0 (to_numeric lib (replace_value (StrC '' '') (StrC ''0'') c)))) v)"
  using assms unfolding handle_missing_def
  by (auto simp: ebind_Inr comp_def dest!: assign_from_map_of)

lemma handle_missing_cols_len:
  "handle_missing lib df = Inr df' \<Longrightarrow> cols_len n df \<Longrightarrow> cols_len n df'"
  unfolding handle_missing_def by (auto simp: ebind_Inr dest: assign_from_cols_len)


lemma convert_types_map_of:
  assumes "convert_types lib df = Inr df'"
  shows "\<exists>t m tc s p d ph pb ch.
          map_of df ''tenure'' = Some t \<and> map_of df ''monthly_charges'' = Some m \<and>
          map_of df ''total_charges'' = Some tc \<and> map_of df ''senior_citizen'' = Some s \<and>
          map_of df ''partner'' = Some p \<and> map_of df ''dependents'' = Some d \<and>
          map_of df ''phone_service'' = Some ph \<and> map_of df ''paperless_billing'' = Some pb \<and>
          map_of df ''churn'' = Some ch \<and>
          map_of df' = (map_of df)
            (''tenure'' \<mapsto> map (\<lambda>c. IntC (float_to_int64 (fillna 0 (to_numeric lib c)))) t,
             ''monthly_charges'' \<mapsto> map (\<lambda>c. NumC (fillna 0 (to_numeric lib c))) m,
             ''total_charges'' \<mapsto> map (\<lambda>c. NumC (fillna 0 (to_numeric lib c))) tc,
             ''senior_citizen'' \<mapsto>
                map (\<lambda>c. map_dict [(IntC 1, BoolC True), (IntC 0, BoolC False)] (dict_key c)) s,
             ''partner'' \<mapsto> map (map_dict boolean_mapping) p,
             ''dependents'' \<mapsto> map (map_dict boolean_mapping) d,
             ''phone_service'' \<mapsto> map (map_dict boolean_mapping) ph,
             ''paperless_billing'' \<mapsto> map (map_dict boolean_mapping) pb,
             ''churned'' \<mapsto> map (map_dict [(StrC ''Yes'', BoolC True), (StrC ''No'', BoolC False)]) ch,
             ''churn'' := None)"
  using assms unfolding convert_types_def
  by (auto simp: ebind_Inr dest!: to_int_column_map_of assign_from_map_of drop_col_Inr)

lemma convert_types_cols_len:
  "convert_types lib df = Inr df' \<Longrightarrow> cols_len n df \<Longrightarrow> cols_len n df'"
  unfolding convert_types_def
  apply (elim ebind_InrE)
  apply (drule (1) to_int_column_cols_len)
  apply (drule (1) assign_from_cols_len)+
  apply (erule (1) drop_col_cols_len)
  done


lemma replace_in_columns_other:
  "replace_in_columns a b cs df = Inr df' \<Longrightarrow> c \<notin> set cs \<Longrightarrow> map_of df' c = map_of df c"
proof (induction cs arbitrary: df)
  case Nil
  then show ?case by simp
next
  case (Cons x xs)
  from Cons.prems(1) obtain d where d: "assign_from df x x (replace_value a b) = Inr d"
    and r: "replace_in_columns a b xs d = Inr df'"
    by (auto simp: ebind_Inr)
  from d Cons.prems(2) have "map_of d c = map_of df c"
    by (auto dest!: assign_from_map_of)
  with Cons.IH [OF r] Cons.prems(2) show ?case by simp
qed

lemma replace_in_columns_cols_len:
  "replace_in_columns a b cs df = Inr df' \<Longrightarrow> cols_len n df \<Longrightarrow> cols_len n df'"
proof (induction cs arbitrary: df)
  case Nil
  then show ?case by simp
next
  case (Cons x xs)
  from Cons.prems(1) obtain d where d: "assign_from df x x (replace_value a b) = Inr d"
    and r: "replace_in_columns a b xs d = Inr df'"
    by (auto simp: ebind_Inr)
  from d Cons.prems(2) have "cols_len n d" by (rule assign_from_cols_len)
  with Cons.IH [OF r] show ?case .
qed

lemma standardize_categoricals_other:
  assumes "standardize_categoricals df = Inr df'"
    and "c \<notin> set (''gender'' # ''multiple_lines'' # service_columns)"
  shows "map_of df' c = map_of df c"
proof -
  from assms(1) obtain d1 d2 where
    1: "assign_from df ''gender'' ''gender'' str_title = Inr d1" and
    2: "replace_in_columns (StrC ''No internet service'') (StrC ''No'') service_columns d1 = Inr d2" and
    3: "assign_from d2 ''multiple_lines'' ''multiple_lines''
          (replace_value (StrC ''No phone service'') (StrC ''No'')) = Inr df'"
    unfolding standardize_categoricals_def by (auto simp: ebind_Inr)
  from 1 assms(2) have "map_of d1 c = map_of df c" by (auto dest!: assign_from_map_of)
  moreover from 2 assms(2) have "map_of d2 c = map_of d1 c"
    by (auto dest!: replace_in_columns_other)
  moreover from 3 assms(2) have "map_of df' c = map_of d2 c" by (auto dest!: assign_from_map_of)
  ultimately show ?thesis by simp
qed

lemma standardize_categoricals_cols_len:
  "standardize_categoricals df = Inr df' \<Longrightarrow> cols_len n df \<Longrightarrow> cols_len n df'"
  unfolding standardize_categoricals_def
  apply (elim ebind_InrE)
  apply (drule (1) assign_from_cols_len)
  apply (drule (1) replace_in_columns_cols_len)
  apply (erule (1) assign_from_cols_len)
  done

lemma length_np_where:
  "length c = n \<Longrightarrow> length a = n \<Longrightarrow> length b = n \<Longrightarrow> length (np_where c a b) = n"
  by (induction c a b arbitrary: n rule: np_where.induct) auto

lemma derive_fields_map_of:
  assumes "derive_fields lib df = Inr df'"
  shows "\<exists>t tc m. map_of df ''tenure'' = Some t \<and> map_of df ''total_charges'' = Some tc \<and>
           map_of df ''monthly_charges'' = Some m \<and>
           map_of df' = (map_of df)
             (''avg_monthly_revenue'' \<mapsto> np_where (map gt0 t) (map2 true_div tc t) m,
              ''customer_segment'' \<mapsto>
                 map (\<lambda>c. astype_str lib (pd_cut [0, 12, 36, 100] [''New'', ''Growing'', ''Loyal''] c)) t)"
  using assms unfolding derive_fields_def
  by (auto simp: ebind_Inr Let_def get_col_Inr map_of_set_col comp_def dest!: assign_from_map_of)

lemma derive_fields_cols_len:
  assumes "derive_fields lib df = Inr df'" and "cols_len n df"
  shows "cols_len n df'"
proof -
  from assms(1) obtain t tc m d1 d2 where
    t: "map_of df ''tenure'' = Some t" and tc: "map_of df ''total_charges'' = Some tc" and
    m: "map_of df ''monthly_charges'' = Some m" and
    d1: "d1 = set_col df ''avg_monthly_revenue'' (np_where (map gt0 t) (map2 true_div tc t) m)" and
    d2: "assign_from d1 ''customer_segment'' ''tenure''
           (pd_cut [0, 12, 36, 100] [''New'', ''Growing'', ''Loyal'']) = Inr d2" and
    d3: "assign_from d2 ''customer_segment'' ''customer_segment'' (astype_str lib) = Inr df'"
    unfolding derive_fields_def by (auto simp: ebind_Inr Let_def get_col_Inr)
  from assms(2) t tc m have "length t = n" "length tc = n" "length m = n"
    by (auto dest: cols_len_map_of)
  then have "length (np_where (map gt0 t) (map2 true_div tc t) m) = n"
    by (intro length_np_where) simp_all
  with assms(2) d1 have "cols_len n d1" by (simp add: cols_len_set_col)
  with d2 have "cols_len n d2" by (rule assign_from_cols_len)
  with d3 show ?thesis by (rule assign_from_cols_len)
qed

lemma cols_len_rename: "cols_len n (rename_columns mp df) = cols_len n df"
  by (induction df) (auto simp: cols_len_def rename_columns_def)

lemma nrows_rename: "nrows (rename_columns mp df) = nrows df"
  by (cases df) (auto simp: nrows_def rename_columns_def)

lemma np_where_avg:
  "length tcs = length ts \<Longrightarrow> length ms = length ts \<Longrightarrow>
   np_where (map gt0 (map IntC ts)) (map2 true_div (map NumC tcs) (map IntC ts)) (map NumC ms)
     = map (\<lambda>(t, tc, m). NumC (if 0 < t then quotient tc t else m)) (zip ts (zip tcs ms))"
proof (induction ts arbitrary: tcs ms)
  case Nil
  then show ?case by simp
next
  case (Cons t ts)
  then obtain tc tcs' m ms' where "tcs = tc # tcs'" "ms = m # ms'"
    by (cases tcs; cases ms) auto
  with Cons show ?case by (auto simp: gt0_def true_div_def float_div_pos)
qed

lemma segment_of_tenure:
  "astype_str lib (pd_cut [0, 12, 36, 100] [''New'', ''Growing'', ''Loyal''] (IntC t)) =
     (if 0 \<le> t \<and> t \<le> 12 then StrC ''New'' else if 12 < t \<and> t \<le> 36 then StrC ''Growing''
      else if 36 < t \<and> t \<le> 100 then StrC ''Loyal'' else missing_category lib)"
  by (simp add: pd_cut_def astype_str_def)

lemma transform_fields_columns:
  assumes "transform_fields lib df = Inr f" and "cols_len n df"
  shows "\<exists>t m tc p d ph pb ch.
     map_of (standardize_columns df) ''partner'' = Some p \<and>
     map_of (standardize_columns df) ''dependents'' = Some d \<and>
     map_of (standardize_columns df) ''phone_service'' = Some ph \<and>
     map_of (standardize_columns df) ''paperless_billing'' = Some pb \<and>
     map_of (standardize_columns df) ''churn'' = Some ch \<and>
     map_of (standardize_columns df) ''tenure'' = Some t \<and>
     map_of (standardize_columns df) ''monthly_charges'' = Some m \<and>
     map_of (standardize_columns df) ''total_charges'' = Some tc \<and>
     length t = n \<and> length m = n \<and> length tc = n \<and>
     map_of f ''tenure'' = Some (map (\<lambda>c. IntC (float_to_int64 (fillna 0 (to_numeric lib c)))) t) \<and>
     map_of f ''monthly_charges'' = Some (map (\<lambda>c. NumC (fillna 0 (to_numeric lib c))) m) \<and>
     map_of f ''total_charges'' = Some (map (\<lambda>c. NumC (fillna 0 (to_numeric lib
         (replace_value (StrC '' '') (StrC ''0'') c)))) tc) \<and>
     map_of f ''avg_monthly_revenue'' =
       Some (map (\<lambda>(t, tc, m). NumC (if 0 < t then quotient tc t else m))
          (zip (map (\<lambda>c. float_to_int64 (fillna 0 (to_numeric lib c))) t)
            (zip (map (\<lambda>c. fillna 0 (to_numeric lib (replace_value (StrC '' '') (StrC ''0'') c))) tc)
                 (map (\<lambda>c. fillna 0 (to_numeric lib c)) m)))) \<and>
     map_of f ''customer_segment'' =
       Some (map (\<lambda>c. astype_str lib (pd_cut [0, 12, 36, 100] [''New'', ''Growing'', ''Loyal'']
                (IntC (float_to_int64 (fillna 0 (to_numeric lib c)))))) t) \<and>
     map_of f ''customer_id'' = map_of (standardize_columns df) ''customer_id'' \<and>
     map_of f ''partner'' = Some (map (map_dict boolean_mapping) p) \<and>
     map_of f ''dependents'' = Some (map (map_dict boolean_mapping) d) \<and>
     map_of f ''phone_service'' = Some (map (map_dict boolean_mapping) ph) \<and>
     map_of f ''paperless_billing'' = Some (map (map_dict boolean_mapping) pb) \<and>
     map_of f ''churned'' =
       Some (map (map_dict [(StrC ''Yes'', BoolC True), (StrC ''No'', BoolC False)]) ch) \<and>
     cols_len n f"
proof -
  let ?r = "standardize_columns df"
  from assms(1) obtain d2 d3 d4 where
    s2: "handle_missing lib ?r = Inr d2" and s3: "convert_types lib d2 = Inr d3" and
    s4: "standardize_categoricals d3 = Inr d4" and s5: "derive_fields lib d4 = Inr f"
    unfolding transform_fields_def by (auto simp: ebind_Inr)
  have lr: "cols_len n ?r" using assms(2) by (simp add: standardize_columns_def cols_len_rename)
  have l2: "cols_len n d2" using s2 lr by (rule handle_missing_cols_len)
  have l3: "cols_len n d3" using s3 l2 by (rule convert_types_cols_len)
  have l4: "cols_len n d4" using s4 l3 by (rule standardize_categoricals_cols_len)
  have l5: "cols_len n f" using s5 l4 by (rule derive_fields_cols_len)
  from handle_missing_map_of [OF s2] obtain tc where
    tc: "map_of ?r ''total_charges'' = Some tc" and
    m2: "map_of d2 = (map_of ?r)(''total_charges'' \<mapsto>
             map (\<lambda>c. NumC (fillna 0 (to_numeric lib (replace_value (StrC '' '') (StrC ''0'') c)))) tc)"
    by blast
  from convert_types_map_of [OF s3] obtain t m tc' s p d ph pb ch where
    c3: "map_of d2 ''tenure'' = Some t" "map_of d2 ''monthly_charges'' = Some m"
      "map_of d2 ''total_charges'' = Some tc'" "map_of d2 ''senior_citizen'' = Some s"
      "map_of d2 ''partner'' = Some p" "map_of d2 ''dependents'' = Some d"
      "map_of d2 ''phone_service'' = Some ph" "map_of d2 ''paperless_billing'' = Some pb"
      "map_of d2 ''churn'' = Some ch" and
    m3: "map_of d3 = (map_of d2)
            (''tenure'' \<mapsto> map (\<lambda>c. IntC (float_to_int64 (fillna 0 (to_numeric lib c)))) t,
             ''monthly_charges'' \<mapsto> map (\<lambda>c. NumC (fillna 0 (to_numeric lib c))) m,
             ''total_charges'' \<mapsto> map (\<lambda>c. NumC (fillna 0 (to_numeric lib c))) tc',
             ''senior_citizen'' \<mapsto>
                map (\<lambda>c. map_dict [(IntC 1, BoolC True), (IntC 0, BoolC False)] (dict_key c)) s,
             ''partner'' \<mapsto> map (map_dict boolean_mapping) p,
             ''dependents'' \<mapsto> map (map_dict boolean_mapping) d,
             ''phone_service'' \<mapsto> map (map_dict boolean_mapping) ph,
             ''paperless_billing'' \<mapsto> map (map_dict boolean_mapping) pb,
             ''churned'' \<mapsto> map (map_dict [(StrC ''Yes'', BoolC True), (StrC ''No'', BoolC False)]) ch,
             ''churn'' := None)"
    by blast
  have raw: "map_of ?r ''tenure'' = Some t" "map_of ?r ''monthly_charges'' = Some m"
      "map_of ?r ''partner'' = Some p" "map_of ?r ''dependents'' = Some d"
      "map_of ?r ''phone_service'' = Some ph" "map_of ?r ''paperless_billing'' = Some pb"
      "map_of ?r ''churn'' = Some ch"
    using c3 by (simp_all add: m2)
  have tc': "tc' = map (\<lambda>c. NumC (fillna 0 (to_numeric lib (replace_value (StrC '' '') (StrC ''0'') c)))) tc"
    using c3(3) by (simp add: m2)
  have len: "length t = n" "length m = n" "length tc = n"
    using lr raw(1,2) tc by (auto dest: cols_len_map_of)
  have k4: "map_of d4 c = map_of d3 c"
    if "c \<notin> set (''gender'' # ''multiple_lines'' # service_columns)" for c
    using s4 that by (rule standardize_categoricals_other)
  have d4: "map_of d4 ''tenure'' = Some (map (\<lambda>c. IntC (float_to_int64 (fillna 0 (to_numeric lib c)))) t)"
     "map_of d4 ''monthly_charges'' = Some (map (\<lambda>c. NumC (fillna 0 (to_numeric lib c))) m)"
     "map_of d4 ''total_charges'' = Some (map (\<lambda>c. NumC (fillna 0 (to_numeric lib
         (replace_value (StrC '' '') (StrC ''0'') c)))) tc)"
     "map_of d4 ''customer_id'' = map_of ?r ''customer_id''"
     "map_of d4 ''partner'' = Some (map (map_dict boolean_mapping) p)"
     "map_of d4 ''dependents'' = Some (map (map_dict boolean_mapping) d)"
     "map_of d4 ''phone_service'' = Some (map (map_dict boolean_mapping) ph)"
     "map_of d4 ''paperless_billing'' = Some (map (map_dict boolean_mapping) pb)"
     "map_of d4 ''churned'' = Some (map (map_dict [(StrC ''Yes'', BoolC True), (StrC ''No'', BoolC False)]) ch)"
    by (simp_all add: k4 service_columns_def m3 m2 tc' to_numeric_def fillna_def comp_def)
  from derive_fields_map_of [OF s5] obtain t5 tc5 m5 where
    g5: "map_of d4 ''tenure'' = Some t5" "map_of d4 ''total_charges'' = Some tc5"
        "map_of d4 ''monthly_charges'' = Some m5" and
    m5: "map_of f = (map_of d4)
             (''avg_monthly_revenue'' \<mapsto> np_where (map gt0 t5) (map2 true_div tc5 t5) m5,
              ''customer_segment'' \<mapsto>
                 map (\<lambda>c. astype_str lib (pd_cut [0, 12, 36, 100] [''New'', ''Growing'', ''Loyal''] c)) t5)"
    by blast
  have t5: "t5 = map IntC (map (\<lambda>c. float_to_int64 (fillna 0 (to_numeric lib c))) t)"
    and tc5: "tc5 = map NumC (map (\<lambda>c. fillna 0 (to_numeric lib (replace_value (StrC '' '') (StrC ''0'') c))) tc)"
    and m5': "m5 = map NumC (map (\<lambda>c. fillna 0 (to_numeric lib c)) m)"
    using g5 d4(1-3) by (simp_all add: comp_def)
  have avg: "np_where (map gt0 t5) (map2 true_div tc5 t5) m5 =
      map (\<lambda>(t, tc, m). NumC (if 0 < t then quotient tc t else m))
          (zip (map (\<lambda>c. float_to_int64 (fillna 0 (to_numeric lib c))) t)
            (zip (map (\<lambda>c. fillna 0 (to_numeric lib (replace_value (StrC '' '') (StrC ''0'') c))) tc)
                 (map (\<lambda>c. fillna 0 (to_numeric lib c)) m)))"
    unfolding t5 tc5 m5' by (rule np_where_avg) (simp_all add: len)
  show ?thesis
    apply (rule exI [of _ t], rule exI [of _ m], rule exI [of _ tc], rule exI [of _ p],
        rule exI [of _ d], rule exI [of _ ph], rule exI [of _ pb], rule exI [of _ ch])
    apply (simp add: raw tc len l5 m5 d4 avg)
    apply (simp add: t5 comp_def)
    done
qed


section \<open>Duplicate rows and range repair\<close>

lemma length_keep_rows:
  "length v = length m \<Longrightarrow> length (keep_rows (map Not m) v) + mask_sum m = length m"
  by (induction m arbitrary: v) (auto simp: mask_sum_def length_Suc_conv)

lemma keep_rows_all:
  "length v = length m \<Longrightarrow> mask_sum m = 0 \<Longrightarrow> keep_rows (map Not m) v = v"
  by (induction m arbitrary: v) (auto simp: mask_sum_def length_Suc_conv split: if_splits)

lemma keep_rows_map: "keep_rows m (map f v) = map f (keep_rows m v)"
  by (induction m v rule: keep_rows.induct) auto

lemma keep_rows_zip: "keep_rows m (zip a b) = zip (keep_rows m a) (keep_rows m b)"
proof (induction m arbitrary: a b)
  case Nil
  then show ?case by simp
next
  case (Cons x m)
  then show ?case by (cases a; cases b) auto
qed

lemma loc_assign_map: "loc_assign (map p v) z v = map (\<lambda>c. if p c then z else c) v"
  by (induction v) auto

lemma mask_sum_map: "mask_sum (map p v) = length (filter p v)"
  by (induction v) (auto simp: mask_sum_def)

lemma repair_none: "mask_sum (map p v) = 0 \<Longrightarrow> map (\<lambda>c. if p c then z else c) v = v"
  by (auto simp: mask_sum_map filter_empty_conv intro!: map_idI)

lemma length_duplicated_from: "length (duplicated_from seen xs) = length xs"
  by (induction xs arbitrary: seen) auto

lemma set_keep_first:
  "set (keep_rows (map Not (duplicated_from seen xs)) xs) = set xs - set seen"
  by (induction xs arbitrary: seen) auto

lemma distinct_keep_first:
  "distinct (keep_rows (map Not (duplicated_from seen xs)) xs)"
  by (induction xs arbitrary: seen) (auto simp: set_keep_first)

lemma duplicated_from_nth:
  "i < length xs \<Longrightarrow> duplicated_from seen xs ! i = (xs ! i \<in> set seen \<union> set (take i xs))"
proof (induction xs arbitrary: seen i)
  case Nil
  then show ?case by simp
next
  case (Cons x xs)
  then show ?case by (cases i) auto
qed

lemma map_of_drop_duplicates:
  "map_of (drop_duplicates ids df) c = map_option (keep_rows (map Not (duplicated ids))) (map_of df c)"
  by (induction df) (auto simp: drop_duplicates_def)

lemma cols_len_drop_duplicates:
  assumes "cols_len n df" and "length ids = n"
  shows "cols_len (n - mask_sum (duplicated ids)) (drop_duplicates ids df)"
proof -
  have "length (keep_rows (map Not (duplicated ids)) v) = n - mask_sum (duplicated ids)"
    if "length v = n" for v :: column
    using length_keep_rows [of v "duplicated ids"] that assms(2)
    by (simp add: duplicated_def length_duplicated_from)
  with assms(1) show ?thesis
    by (auto simp: cols_len_def drop_duplicates_def list_all_iff)
qed

lemma nrows_cols_len: "cols_len n df \<Longrightarrow> map_of df c = Some v \<Longrightarrow> nrows df = n"
  by (cases df) (auto simp: cols_len_def nrows_def)

lemma dedup_columns:
  assumes "(if 0 < mask_sum (duplicated ids) then remove_duplicates f else Inr f) = Inr g"
    and "map_of f ''customer_id'' = Some ids" and "cols_len n f"
  shows "map_of g c = map_option (keep_rows (map Not (duplicated ids))) (map_of f c)"
    and "cols_len (n - mask_sum (duplicated ids)) g"
proof -
  have len: "length ids = n" using assms(3,2) by (rule cols_len_map_of)
  show "map_of g c = map_option (keep_rows (map Not (duplicated ids))) (map_of f c)"
  proof (cases "0 < mask_sum (duplicated ids)")
    case True
    with assms(1,2) have "g = drop_duplicates ids f"
      by (simp add: remove_duplicates_def ebind_def get_col_def)
    then show ?thesis by (simp add: map_of_drop_duplicates)
  next
    case False
    with assms(1) have g: "g = f" by simp
    show ?thesis
    proof (cases "map_of f c")
      case None
      with g show ?thesis by simp
    next
      case (Some v)
      with assms(3) have "length v = n" by (auto dest: cols_len_map_of)
      with len False have "keep_rows (map Not (duplicated ids)) v = v"
        by (intro keep_rows_all) (simp_all add: duplicated_def length_duplicated_from)
      with g Some show ?thesis by simp
    qed
  qed
  show "cols_len (n - mask_sum (duplicated ids)) g"
  proof (cases "0 < mask_sum (duplicated ids)")
    case True
    with assms(1,2) have "g = drop_duplicates ids f"
      by (simp add: remove_duplicates_def ebind_def get_col_def)
    with assms(3) len show ?thesis by (simp add: cols_len_drop_duplicates)
  next
    case False
    with assms(1,3) show ?thesis by simp
  qed
qed

lemma repair_ranges_columns:
  assumes "repair_ranges g = Inr (out, bt, bc)"
  shows "\<exists>t m. map_of g ''tenure'' = Some t \<and> map_of g ''monthly_charges'' = Some m \<and>
          bt = mask_sum (map lt0 t) \<and> bc = mask_sum (map lt0 m) \<and>
          map_of out = (map_of g)
            (''tenure'' \<mapsto> map (\<lambda>c. if lt0 c then IntC 0 else c) t,
             ''monthly_charges'' \<mapsto> map (\<lambda>c. if lt0 c then NumC 0 else c) m) \<and>
          (\<forall>n. cols_len n g \<longrightarrow> cols_len n out)"
proof -
  from assms obtain t m where t: "map_of g ''tenure'' = Some t"
    and m: "map_of g ''monthly_charges'' = Some m"
    unfolding repair_ranges_def by (auto simp: ebind_Inr get_col_Inr)
  let ?g1 = "if 0 < mask_sum (map lt0 t)
             then set_col g ''tenure'' (loc_assign (map lt0 t) (IntC 0) t) else g"
  have g1: "map_of ?g1 = (map_of g)(''tenure'' \<mapsto> map (\<lambda>c. if lt0 c then IntC 0 else c) t)"
    using t by (auto simp: map_of_set_col loc_assign_map repair_none map_upd_triv)
  have l1: "cols_len n g \<Longrightarrow> cols_len n ?g1" for n
    using t by (auto intro!: cols_len_set_col simp: loc_assign_map dest: cols_len_map_of)
  have m1: "map_of ?g1 ''monthly_charges'' = Some m" using m by (simp add: g1)
  let ?g2 = "if 0 < mask_sum (map lt0 m)
             then set_col ?g1 ''monthly_charges'' (loc_assign (map lt0 m) (NumC 0) m) else ?g1"
  have out: "out = ?g2" "bt = mask_sum (map lt0 t)" "bc = mask_sum (map lt0 m)"
    using assms t m m1 unfolding repair_ranges_def
    by (auto simp: ebind_def get_col_def Let_def split: if_splits)
  have g2: "map_of ?g2 = (map_of ?g1)(''monthly_charges'' \<mapsto> map (\<lambda>c. if lt0 c then NumC 0 else c) m)"
    using m1 by (auto simp: map_of_set_col loc_assign_map repair_none map_upd_triv simp del: map_of_eq_None_iff)
  have l2: "cols_len n ?g2" if "cols_len n g" for n
  proof -
    from that have a: "cols_len n ?g1" by (rule l1)
    from that m have "length (loc_assign (map lt0 m) (NumC 0) m) = n"
      by (auto simp: loc_assign_map dest: cols_len_map_of)
    with a have "cols_len n (set_col ?g1 ''monthly_charges'' (loc_assign (map lt0 m) (NumC 0) m))"
      by (rule cols_len_set_col)
    with a show ?thesis by (simp only: if_split) blast
  qed
  show ?thesis
    apply (rule exI [of _ t], rule exI [of _ m])
    using l2 by (simp add: t m out(2,3) g1 g2 out(1))
qed

lemma validate_quality_columns:
  assumes "validate_quality initial f = Inr (out, rep)" and "cols_len n f"
  shows "\<exists>ids t m.
     map_of f ''customer_id'' = Some ids \<and> map_of f ''tenure'' = Some t \<and>
     map_of f ''monthly_charges'' = Some m \<and>
     (\<forall>c. map_of out c =
        (if c = ''tenure''
         then Some (map (\<lambda>c. if lt0 c then IntC 0 else c) (keep_rows (map Not (duplicated ids)) t))
         else if c = ''monthly_charges''
         then Some (map (\<lambda>c. if lt0 c then NumC 0 else c) (keep_rows (map Not (duplicated ids)) m))
         else map_option (keep_rows (map Not (duplicated ids))) (map_of f c))) \<and>
     duplicates rep = mask_sum (duplicated ids) \<and>
     invalid_tenure rep = mask_sum (map lt0 (keep_rows (map Not (duplicated ids)) t)) \<and>
     invalid_charges rep = mask_sum (map lt0 (keep_rows (map Not (duplicated ids)) m)) \<and>
     initial_rows rep = initial \<and>
     final_rows rep = n - mask_sum (duplicated ids) \<and>
     rows_removed rep = int initial - int (n - mask_sum (duplicated ids)) \<and>
     cols_len (n - mask_sum (duplicated ids)) out"
proof -
  from assms(1) obtain ids where ids: "map_of f ''customer_id'' = Some ids"
    unfolding validate_quality_def count_duplicates_def
    by (auto simp: ebind_Inr get_col_Inr)
  let ?K = "keep_rows (map Not (duplicated ids)) :: column \<Rightarrow> column"
  from assms(1) ids obtain g bt bc ids' where
    g: "(if 0 < mask_sum (duplicated ids) then remove_duplicates f else Inr f) = Inr g" and
    r: "repair_ranges g = Inr (out, bt, bc)" and
    s: "summarize initial (mask_sum (duplicated ids)) bt bc out = Inr rep"
    unfolding validate_quality_def count_duplicates_def
    by (auto simp: ebind_Inr get_col_Inr split: prod.splits)
  have gc: "map_of g c = map_option ?K (map_of f c)" for c
    using g ids assms(2) by (rule dedup_columns(1))
  have gl: "cols_len (n - mask_sum (duplicated ids)) g"
    using g ids assms(2) by (rule dedup_columns(2))
  from repair_ranges_columns [OF r] obtain t' m' where
    t': "map_of g ''tenure'' = Some t'" and m': "map_of g ''monthly_charges'' = Some m'" and
    bt: "bt = mask_sum (map lt0 t')" and bc: "bc = mask_sum (map lt0 m')" and
    mo: "map_of out = (map_of g)
            (''tenure'' \<mapsto> map (\<lambda>c. if lt0 c then IntC 0 else c) t',
             ''monthly_charges'' \<mapsto> map (\<lambda>c. if lt0 c then NumC 0 else c) m')" and
    ol: "\<forall>n. cols_len n g \<longrightarrow> cols_len n out"
    by blast
  from t' obtain t where t: "map_of f ''tenure'' = Some t" and tt: "t' = ?K t"
    by (auto simp: gc)
  from m' obtain m where m: "map_of f ''monthly_charges'' = Some m" and mm: "m' = ?K m"
    by (auto simp: gc)
  have outl: "cols_len (n - mask_sum (duplicated ids)) out" using ol gl by blast
  have oid: "map_of out ''customer_id'' = Some (?K ids)" by (simp add: mo gc ids)
  have nr: "nrows out = n - mask_sum (duplicated ids)" using outl oid by (rule nrows_cols_len)
  from s oid have rep: "rep = \<lparr>initial_rows = initial, final_rows = nrows out,
                    rows_removed = int initial - int (nrows out),
                    duplicates = mask_sum (duplicated ids), invalid_tenure = bt,
                    invalid_charges = bc, null_values = null_count out,
                    duplicate_ids_left = mask_sum (duplicated (?K ids))\<rparr>"
    by (auto simp: summarize_def ebind_Inr get_col_Inr)
  show ?thesis
    apply (rule exI [of _ ids], rule exI [of _ t], rule exI [of _ m])
    apply (simp add: ids t m outl rep nr bt bc tt mm)
    apply (simp add: mo gc tt mm)
    done
qed

lemma repair_int: "map (\<lambda>c. if lt0 c then IntC 0 else c) (map (\<lambda>c. IntC (g c)) v) = map (\<lambda>c. IntC (max 0 (g c))) v"
  by (induction v) (auto simp: lt0_def max_def)

lemma repair_num: "map (\<lambda>c. if lt0 c then NumC 0 else c) (map (\<lambda>c. NumC (g c)) v) = map (\<lambda>c. NumC (max 0 (g c))) v"
  by (induction v) (auto simp: lt0_def max_def)

lemma clean_frame_columns:
  assumes "clean_frame lib df = Inr (out, rep)" and "rectangular df"
  shows "\<exists>f ids t m tc.
     transform_fields lib df = Inr f \<and>
     map_of (standardize_columns df) ''customer_id'' = Some ids \<and>
     map_of (standardize_columns df) ''tenure'' = Some t \<and>
     map_of (standardize_columns df) ''monthly_charges'' = Some m \<and>
     map_of (standardize_columns df) ''total_charges'' = Some tc \<and>
     length ids = nrows df \<and> length t = nrows df \<and> length m = nrows df \<and> length tc = nrows df \<and>
     map_of out ''customer_id'' = Some (first_rows ids ids) \<and>
     map_of out ''tenure'' = Some (map (\<lambda>c. IntC (max 0 (tenure_value lib c))) (first_rows ids t)) \<and>
     map_of out ''monthly_charges'' = Some (map (\<lambda>c. NumC (max 0 (charge_value lib c))) (first_rows ids m)) \<and>
     map_of out ''total_charges'' = Some (map (\<lambda>c. NumC (total_value lib c)) (first_rows ids tc)) \<and>
     map_of out ''avg_monthly_revenue'' =
        Some (map (\<lambda>(a, b, c). NumC (if 0 < tenure_value lib a
                                     then quotient (total_value lib b) (tenure_value lib a)
                                     else charge_value lib c))
               (first_rows ids (zip t (zip tc m)))) \<and>
     map_of out ''customer_segment'' =
        Some (map (\<lambda>c. astype_str lib (pd_cut [0, 12, 36, 100] [''New'', ''Growing'', ''Loyal'']
                (IntC (tenure_value lib c)))) (first_rows ids t)) \<and>
     (\<forall>c. c \<noteq> ''tenure'' \<longrightarrow> c \<noteq> ''monthly_charges'' \<longrightarrow>
          map_of out c = map_option (first_rows ids) (map_of f c)) \<and>
     duplicates rep = mask_sum (duplicated ids) \<and>
     invalid_tenure rep = length (filter (\<lambda>c. tenure_value lib c < 0) (first_rows ids t)) \<and>
     invalid_charges rep = length (filter (\<lambda>c. charge_value lib c < 0) (first_rows ids m)) \<and>
     initial_rows rep = nrows df \<and>
     final_rows rep = nrows df - mask_sum (duplicated ids) \<and>
     rows_removed rep = int (mask_sum (duplicated ids)) \<and>
     cols_len (nrows df - mask_sum (duplicated ids)) out"
proof -
  let ?r = "standardize_columns df"
  let ?n = "nrows df"
  from assms(1) obtain f where f: "transform_fields lib df = Inr f"
    and v: "validate_quality ?n f = Inr (out, rep)"
    unfolding clean_frame_def by (auto simp: ebind_Inr)
  have cl: "cols_len ?n df" using assms(2) by (simp add: rectangular_def cols_len_def)
  from transform_fields_columns [OF f cl] obtain t m tc where
    raw: "map_of ?r ''tenure'' = Some t" "map_of ?r ''monthly_charges'' = Some m"
         "map_of ?r ''total_charges'' = Some tc" and
    len: "length t = ?n" "length m = ?n" "length tc = ?n" and
    ft: "map_of f ''tenure'' = Some (map (\<lambda>c. IntC (float_to_int64 (fillna 0 (to_numeric lib c)))) t)" and
    fm: "map_of f ''monthly_charges'' = Some (map (\<lambda>c. NumC (fillna 0 (to_numeric lib c))) m)" and
    ftc: "map_of f ''total_charges'' = Some (map (\<lambda>c. NumC (fillna 0 (to_numeric lib
         (replace_value (StrC '' '') (StrC ''0'') c)))) tc)" and
    fa: "map_of f ''avg_monthly_revenue'' =
       Some (map (\<lambda>(t, tc, m). NumC (if 0 < t then quotient tc t else m))
          (zip (map (\<lambda>c. float_to_int64 (fillna 0 (to_numeric lib c))) t)
            (zip (map (\<lambda>c. fillna 0 (to_numeric lib (replace_value (StrC '' '') (StrC ''0'') c))) tc)
                 (map (\<lambda>c. fillna 0 (to_numeric lib c)) m))))" and
    fs: "map_of f ''customer_segment'' =
       Some (map (\<lambda>c. astype_str lib (pd_cut [0, 12, 36, 100] [''New'', ''Growing'', ''Loyal'']
                (IntC (float_to_int64 (fillna 0 (to_numeric lib c)))))) t)" and
    fid: "map_of f ''customer_id'' = map_of ?r ''customer_id''" and
    fl: "cols_len ?n f"
    by blast
  from validate_quality_columns [OF v fl] obtain ids t' m' where
    ids: "map_of f ''customer_id'' = Some ids" and t': "map_of f ''tenure'' = Some t'" and
    m': "map_of f ''monthly_charges'' = Some m'" and
    oc: "\<forall>c. map_of out c =
        (if c = ''tenure''
         then Some (map (\<lambda>c. if lt0 c then IntC 0 else c) (keep_rows (map Not (duplicated ids)) t'))
         else if c = ''monthly_charges''
         then Some (map (\<lambda>c. if lt0 c then NumC 0 else c) (keep_rows (map Not (duplicated ids)) m'))
         else map_option (keep_rows (map Not (duplicated ids))) (map_of f c))" and
    rp: "duplicates rep = mask_sum (duplicated ids)"
     "invalid_tenure rep = mask_sum (map lt0 (keep_rows (map Not (duplicated ids)) t'))"
     "invalid_charges rep = mask_sum (map lt0 (keep_rows (map Not (duplicated ids)) m'))"
     "initial_rows rep = ?n"
     "final_rows rep = ?n - mask_sum (duplicated ids)"
     "rows_removed rep = int ?n - int (?n - mask_sum (duplicated ids))" and
    ol: "cols_len (?n - mask_sum (duplicated ids)) out"
    by blast
  have t'': "t' = map (\<lambda>c. IntC (tenure_value lib c)) t" using t' ft by (simp add: tenure_value_def)
  have m'': "m' = map (\<lambda>c. NumC (charge_value lib c)) m" using m' fm by (simp add: charge_value_def)
  have lid: "length ids = ?n" using fl ids by (rule cols_len_map_of)
  have dl: "mask_sum (duplicated ids) \<le> ?n"
    using length_keep_rows [of ids "duplicated ids"] lid
    by (simp add: duplicated_def length_duplicated_from)
  have avg_zip: "zip (map (\<lambda>c. float_to_int64 (fillna 0 (to_numeric lib c))) t)
            (zip (map (\<lambda>c. fillna 0 (to_numeric lib (replace_value (StrC '' '') (StrC ''0'') c))) tc)
                 (map (\<lambda>c. fillna 0 (to_numeric lib c)) m))
        = map (\<lambda>(a, b, c). (tenure_value lib a, total_value lib b, charge_value lib c))
            (zip t (zip tc m))"
    by (simp add: zip_map_map zip_map2 tenure_value_def total_value_def charge_value_def split_def zip_map1)
  have o1: "map_of out ''customer_id'' = Some (first_rows ids ids)"
    by (simp add: oc ids first_rows_def)
  have o2: "map_of out ''tenure'' =
      Some (map (\<lambda>c. IntC (max 0 (tenure_value lib c))) (first_rows ids t))"
    by (simp add: oc t'' keep_rows_map repair_int first_rows_def del: map_map)
  have o3: "map_of out ''monthly_charges'' =
      Some (map (\<lambda>c. NumC (max 0 (charge_value lib c))) (first_rows ids m))"
    by (simp add: oc m'' keep_rows_map repair_num first_rows_def del: map_map)
  have o4: "map_of out ''total_charges'' =
      Some (map (\<lambda>c. NumC (total_value lib c)) (first_rows ids tc))"
    by (simp add: oc ftc keep_rows_map total_value_def first_rows_def)
  have o5: "map_of out ''avg_monthly_revenue'' =
        Some (map (\<lambda>(a, b, c). NumC (if 0 < tenure_value lib a
                                     then quotient (total_value lib b) (tenure_value lib a)
                                     else charge_value lib c))
               (first_rows ids (zip t (zip tc m))))"
    by (simp add: oc fa avg_zip keep_rows_map split_def comp_def first_rows_def)
  have o6: "map_of out ''customer_segment'' =
        Some (map (\<lambda>c. astype_str lib (pd_cut [0, 12, 36, 100] [''New'', ''Growing'', ''Loyal'']
                (IntC (tenure_value lib c)))) (first_rows ids t))"
    by (simp add: oc fs keep_rows_map tenure_value_def first_rows_def)
  have o7: "\<forall>c. c \<noteq> ''tenure'' \<longrightarrow> c \<noteq> ''monthly_charges'' \<longrightarrow>
          map_of out c = map_option (first_rows ids) (map_of f c)"
    by (simp add: oc first_rows_def [abs_def])
  have r2: "invalid_tenure rep =
      length (filter (\<lambda>c. tenure_value lib c < 0) (first_rows ids t))"
    by (simp add: rp t'' keep_rows_map mask_sum_map lt0_def comp_def first_rows_def)
  have r3: "invalid_charges rep =
      length (filter (\<lambda>c. charge_value lib c < 0) (first_rows ids m))"
    by (simp add: rp m'' keep_rows_map mask_sum_map lt0_def comp_def first_rows_def)
  have r6: "rows_removed rep = int (mask_sum (duplicated ids))"
    using dl by (simp add: rp)
  have rid: "map_of ?r ''customer_id'' = Some ids" using ids fid by simp
  show ?thesis
    apply (rule exI [of _ f], rule exI [of _ ids], rule exI [of _ t], rule exI [of _ m],
        rule exI [of _ tc])
    apply (intro conjI)
    apply (fact f rid raw len lid o1 o2 o3 o4 o5 o6 o7 rp r2 r3 r6 ol)+
    done
qed

section \<open>Properties of the transformation\<close>


lemma map_dict_boolean:
  "map_dict boolean_mapping =
     (\<lambda>c. if c = StrC ''Yes'' then BoolC True
          else if c = StrC ''No'' \<or> c = StrC ''No phone service'' \<or> c = StrC ''No internet service''
          then BoolC False else NaN)"
  by (rule ext) (simp add: map_dict_def boolean_mapping_def)

lemma map_dict_churn:
  "map_dict [(StrC ''Yes'', BoolC True), (StrC ''No'', BoolC False)] =
     (\<lambda>c. if c = StrC ''Yes'' then BoolC True else if c = StrC ''No'' then BoolC False else NaN)"
  by (rule ext) (simp add: map_dict_def)

text \<open>
  C4. Whatever the raw frame, the frame the transformation returns holds every customer
  id once: its \<open>customer_id\<close> column is the raw one cut down to the rows where the id
  occurs for the first time (a row is dropped exactly when an earlier row of the file has
  the same id), every other column is cut down to the same rows, in the order of the
  file, and the duplicate counter is the number of rows dropped: the rows before less the
  rows after.
\<close>

theorem duplicate_resolution:
  assumes "clean_frame lib df = Inr (out, rep)" and "rectangular df"
  shows "\<exists>f ids t m.
      transform_fields lib df = Inr f \<and>
      map_of (standardize_columns df) ''customer_id'' = Some ids \<and>
      map_of (standardize_columns df) ''tenure'' = Some t \<and>
      map_of (standardize_columns df) ''monthly_charges'' = Some m \<and>
      length ids = nrows df \<and>
      map_of out ''customer_id'' = Some (first_rows ids ids) \<and>
      distinct (first_rows ids ids) \<and> set (first_rows ids ids) = set ids \<and>
      (\<forall>i < length ids. duplicated ids ! i = (ids ! i \<in> set (take i ids))) \<and>
      (\<forall>c. c \<noteq> ''tenure'' \<longrightarrow> c \<noteq> ''monthly_charges'' \<longrightarrow>
           map_of out c = map_option (first_rows ids) (map_of f c)) \<and>
      map_of out ''tenure'' = Some (map (\<lambda>c. IntC (max 0 (tenure_value lib c))) (first_rows ids t)) \<and>
      map_of out ''monthly_charges'' =
        Some (map (\<lambda>c. NumC (max 0 (charge_value lib c))) (first_rows ids m)) \<and>
      duplicates rep = length ids - length (first_rows ids ids) \<and>
      rows_removed rep = int (duplicates rep) \<and>
      initial_rows rep = length ids \<and>
      final_rows rep = length (first_rows ids ids)"
proof -
  from clean_frame_columns [OF assms] obtain f ids t m where
    a: "transform_fields lib df = Inr f"
      "map_of (standardize_columns df) ''customer_id'' = Some ids"
      "map_of (standardize_columns df) ''tenure'' = Some t"
      "map_of (standardize_columns df) ''monthly_charges'' = Some m"
      "length ids = nrows df"
      "map_of out ''customer_id'' = Some (first_rows ids ids)"
      "\<forall>c. c \<noteq> ''tenure'' \<longrightarrow> c \<noteq> ''monthly_charges'' \<longrightarrow>
           map_of out c = map_option (first_rows ids) (map_of f c)"
      "map_of out ''tenure'' = Some (map (\<lambda>c. IntC (max 0 (tenure_value lib c))) (first_rows ids t))"
      "map_of out ''monthly_charges'' =
        Some (map (\<lambda>c. NumC (max 0 (charge_value lib c))) (first_rows ids m))" and
    r: "duplicates rep = mask_sum (duplicated ids)" "initial_rows rep = nrows df"
      "final_rows rep = nrows df - mask_sum (duplicated ids)"
      "rows_removed rep = int (mask_sum (duplicated ids))"
    by (elim exE conjE) (rule that; assumption)
  have l: "length (first_rows ids ids) + mask_sum (duplicated ids) = length ids"
    using length_keep_rows [of ids "duplicated ids"]
    by (simp add: first_rows_def duplicated_def length_duplicated_from)
  have b: "distinct (first_rows ids ids)" "set (first_rows ids ids) = set ids"
    by (simp_all add: first_rows_def duplicated_def distinct_keep_first set_keep_first)
  have c: "\<forall>i < length ids. duplicated ids ! i = (ids ! i \<in> set (take i ids))"
    by (simp add: duplicated_def duplicated_from_nth)
  have d: "duplicates rep = length ids - length (first_rows ids ids)"
    "rows_removed rep = int (duplicates rep)" "initial_rows rep = length ids"
    "final_rows rep = length (first_rows ids ids)"
    using l r a(5) by simp_all
  show ?thesis
    apply (rule exI [of _ f], rule exI [of _ ids], rule exI [of _ t], rule exI [of _ m])
    apply (intro conjI)
    apply (fact a b c d)+
    done
qed

text \<open>
  The theorem at three raw rows of which the first and the third share the id
  \<open>7590-VHVEG\<close>: the first and the second row are staged, the monthly charge staged for
  \<open>7590-VHVEG\<close> is the one of its first row, and the duplicate counter is 1.
\<close>

theorem duplicate_resolution_witness:
  "\<exists>out rep.
     clean_frame pandas2
       (sample_frame [StrC ''7590-VHVEG'', StrC ''5575-GNVDE'', StrC ''7590-VHVEG'']
          [IntC 1, IntC 34, IntC 2] [StrC ''29.85'', StrC ''56.95'', StrC ''53.85'']
          [StrC ''29.85'', StrC ''1889.5'', StrC ''108.15''] [StrC ''Yes'', StrC ''No'', StrC ''No''])
       = Inr (out, rep)
     \<and> map_of out ''customer_id'' = Some [StrC ''7590-VHVEG'', StrC ''5575-GNVDE'']
     \<and> map_of out ''monthly_charges'' = Some [NumC (Fin 29.85), NumC (Fin 56.95)]
     \<and> duplicates rep = 1 \<and> final_rows rep = 2
     \<and> (\<exists>ids. map_of out ''customer_id'' = Some (first_rows ids ids) \<and> distinct (first_rows ids ids)
           \<and> duplicates rep = length ids - length (first_rows ids ids))"
proof -
  let ?df = "sample_frame [StrC ''7590-VHVEG'', StrC ''5575-GNVDE'', StrC ''7590-VHVEG'']
          [IntC 1, IntC 34, IntC 2] [StrC ''29.85'', StrC ''56.95'', StrC ''53.85'']
          [StrC ''29.85'', StrC ''1889.5'', StrC ''108.15''] [StrC ''Yes'', StrC ''No'', StrC ''No'']"
  have "case clean_frame pandas2 ?df of Inl _ \<Rightarrow> False
       | Inr (out, rep) \<Rightarrow>
           map_of out ''customer_id'' = Some [StrC ''7590-VHVEG'', StrC ''5575-GNVDE'']
         \<and> map_of out ''monthly_charges'' = Some [NumC (Fin 29.85), NumC (Fin 56.95)]
         \<and> duplicates rep = 1 \<and> final_rows rep = 2"
    by code_simp
  then obtain out rep where h: "clean_frame pandas2 ?df = Inr (out, rep)"
    and v: "map_of out ''customer_id'' = Some [StrC ''7590-VHVEG'', StrC ''5575-GNVDE'']"
       "map_of out ''monthly_charges'' = Some [NumC (Fin 29.85), NumC (Fin 56.95)]"
       "duplicates rep = 1" "final_rows rep = 2"
    by (cases "clean_frame pandas2 ?df") (auto split: prod.splits)
  have r: "rectangular ?df" by code_simp
  have ex: "\<exists>ids. map_of out ''customer_id'' = Some (first_rows ids ids)
      \<and> distinct (first_rows ids ids)
      \<and> duplicates rep = length ids - length (first_rows ids ids)"
    using duplicate_resolution [OF h r] by (elim exE conjE) (intro exI conjI; assumption)
  show ?thesis
    apply (rule exI [of _ out], rule exI [of _ rep])
    apply (intro conjI)
    apply (fact h v ex)+
    done
qed



text \<open>
  C2 (as amended). For every staged record whose tenure the range repair did not alter
  (the converted tenure was not negative, and is the staged one), the segment is fixed by
  the tenure: \<open>New\<close> from 0 to 12, \<open>Growing\<close> above 12 up to 36, \<open>Loyal\<close> above
  36 up to 100, and for a tenure above 100, which is in none of the three bins, the
  missing category: the text \<open>nan\<close> before pandas 3, the missing value from pandas 3
  on.
\<close>

theorem customer_segments:
  assumes "clean_frame lib df = Inr (out, rep)" and "rectangular df"
  shows "\<exists>ids t segs.
      map_of (standardize_columns df) ''customer_id'' = Some ids \<and>
      map_of (standardize_columns df) ''tenure'' = Some t \<and>
      map_of out ''tenure'' =
        Some (map (\<lambda>c. IntC (max 0 (tenure_value lib c))) (first_rows ids t)) \<and>
      map_of out ''customer_segment'' = Some segs \<and>
      list_all2
        (\<lambda>c s. 0 \<le> tenure_value lib c \<longrightarrow>
           max 0 (tenure_value lib c) = tenure_value lib c \<and>
           s = (if tenure_value lib c \<le> 12 then StrC ''New''
                else if tenure_value lib c \<le> 36 then StrC ''Growing''
                else if tenure_value lib c \<le> 100 then StrC ''Loyal''
                else missing_category lib))
        (first_rows ids t) segs"
proof -
  from clean_frame_columns [OF assms] obtain ids t where
    a: "map_of (standardize_columns df) ''customer_id'' = Some ids"
      "map_of (standardize_columns df) ''tenure'' = Some t"
      "map_of out ''tenure'' =
        Some (map (\<lambda>c. IntC (max 0 (tenure_value lib c))) (first_rows ids t))" and
    s: "map_of out ''customer_segment'' =
        Some (map (\<lambda>c. astype_str lib (pd_cut [0, 12, 36, 100] [''New'', ''Growing'', ''Loyal'']
                (IntC (tenure_value lib c)))) (first_rows ids t))"
    by (elim exE conjE) (rule that; assumption)
  let ?segs = "map (\<lambda>c. astype_str lib (pd_cut [0, 12, 36, 100] [''New'', ''Growing'', ''Loyal'']
                (IntC (tenure_value lib c)))) (first_rows ids t)"
  have b: "list_all2
        (\<lambda>c s. 0 \<le> tenure_value lib c \<longrightarrow>
           max 0 (tenure_value lib c) = tenure_value lib c \<and>
           s = (if tenure_value lib c \<le> 12 then StrC ''New''
                else if tenure_value lib c \<le> 36 then StrC ''Growing''
                else if tenure_value lib c \<le> 100 then StrC ''Loyal''
                else missing_category lib))
        (first_rows ids t) ?segs"
    unfolding segment_of_tenure by (simp add: list_all2_map2 list_all2_same)
  show ?thesis
    apply (rule exI [of _ ids], rule exI [of _ t], rule exI [of _ ?segs])
    apply (intro conjI)
    apply (fact a s b)+
    done
qed

text \<open>
  The theorem at the tenures 0, 12, 36, 37 and 100: the segments are \<open>New\<close>,
  \<open>New\<close>, \<open>Growing\<close>, \<open>Loyal\<close> and \<open>Loyal\<close>, under either version of
  pandas.
\<close>

theorem customer_segments_witness:
  "\<exists>out rep.
     clean_frame pandas3
       (sample_frame [StrC ''a'', StrC ''b'', StrC ''c'', StrC ''d'', StrC ''e'']
          [IntC 0, IntC 12, IntC 36, IntC 37, IntC 100]
          [IntC 20, IntC 20, IntC 20, IntC 20, IntC 20]
          [IntC 0, IntC 240, IntC 720, IntC 740, IntC 2000]
          [StrC ''Yes'', StrC ''No'', StrC ''No'', StrC ''No'', StrC ''No'']) = Inr (out, rep)
     \<and> map_of out ''tenure'' = Some [IntC 0, IntC 12, IntC 36, IntC 37, IntC 100]
     \<and> map_of out ''customer_segment'' =
          Some [StrC ''New'', StrC ''New'', StrC ''Growing'', StrC ''Loyal'', StrC ''Loyal'']
     \<and> (\<exists>ids t segs. map_of out ''customer_segment'' = Some segs \<and>
          list_all2
            (\<lambda>c s. 0 \<le> tenure_value pandas3 c \<longrightarrow>
               max 0 (tenure_value pandas3 c) = tenure_value pandas3 c \<and>
               s = (if tenure_value pandas3 c \<le> 12 then StrC ''New''
                    else if tenure_value pandas3 c \<le> 36 then StrC ''Growing''
                    else if tenure_value pandas3 c \<le> 100 then StrC ''Loyal''
                    else missing_category pandas3))
            (first_rows ids t) segs)
     \<and> (case clean_frame pandas2
          (sample_frame [StrC ''a'', StrC ''b'', StrC ''c'', StrC ''d'', StrC ''e'']
             [IntC 0, IntC 12, IntC 36, IntC 37, IntC 100]
             [IntC 20, IntC 20, IntC 20, IntC 20, IntC 20]
             [IntC 0, IntC 240, IntC 720, IntC 740, IntC 2000]
             [StrC ''Yes'', StrC ''No'', StrC ''No'', StrC ''No'', StrC ''No'']) of
           Inl _ \<Rightarrow> False
         | Inr (out2, rep2) \<Rightarrow> map_of out2 ''customer_segment'' =
             Some [StrC ''New'', StrC ''New'', StrC ''Growing'', StrC ''Loyal'', StrC ''Loyal''])"
proof -
  let ?df = "sample_frame [StrC ''a'', StrC ''b'', StrC ''c'', StrC ''d'', StrC ''e'']
          [IntC 0, IntC 12, IntC 36, IntC 37, IntC 100]
          [IntC 20, IntC 20, IntC 20, IntC 20, IntC 20]
          [IntC 0, IntC 240, IntC 720, IntC 740, IntC 2000]
          [StrC ''Yes'', StrC ''No'', StrC ''No'', StrC ''No'', StrC ''No'']"
  have "case clean_frame pandas3 ?df of Inl _ \<Rightarrow> False
       | Inr (out, rep) \<Rightarrow>
           map_of out ''tenure'' = Some [IntC 0, IntC 12, IntC 36, IntC 37, IntC 100]
         \<and> map_of out ''customer_segment'' =
          Some [StrC ''New'', StrC ''New'', StrC ''Growing'', StrC ''Loyal'', StrC ''Loyal'']"
    by code_simp
  then obtain out rep where h: "clean_frame pandas3 ?df = Inr (out, rep)"
    and v: "map_of out ''tenure'' = Some [IntC 0, IntC 12, IntC 36, IntC 37, IntC 100]"
       "map_of out ''customer_segment'' =
          Some [StrC ''New'', StrC ''New'', StrC ''Growing'', StrC ''Loyal'', StrC ''Loyal'']"
    by (cases "clean_frame pandas3 ?df") (auto split: prod.splits)
  have r: "rectangular ?df" by code_simp
  have ex: "\<exists>ids t segs. map_of out ''customer_segment'' = Some segs \<and>
          list_all2
            (\<lambda>c s. 0 \<le> tenure_value pandas3 c \<longrightarrow>
               max 0 (tenure_value pandas3 c) = tenure_value pandas3 c \<and>
               s = (if tenure_value pandas3 c \<le> 12 then StrC ''New''
                    else if tenure_value pandas3 c \<le> 36 then StrC ''Growing''
                    else if tenure_value pandas3 c \<le> 100 then StrC ''Loyal''
                    else missing_category pandas3))
            (first_rows ids t) segs"
    using customer_segments [OF h r] by (elim exE conjE) (intro exI conjI; assumption)
  have p2: "case clean_frame pandas2 ?df of
           Inl _ \<Rightarrow> False
         | Inr (out2, rep2) \<Rightarrow> map_of out2 ''customer_segment'' =
             Some [StrC ''New'', StrC ''New'', StrC ''Growing'', StrC ''Loyal'', StrC ''Loyal'']"
    by code_simp
  show ?thesis
    apply (rule exI [of _ out], rule exI [of _ rep])
    apply (intro conjI)
    apply (fact h v ex p2)+
    done
qed

text \<open>
  C2 as stated fails above the last bin edge: a record with the tenure 101 is staged with
  that tenure and without the segment \<open>Loyal\<close>: before pandas 3 its segment is the
  text \<open>nan\<close>, from pandas 3 on the missing value. A record whose tenure the repair
  has altered is outside the amended claim: with the raw tenure \<open>-3\<close> it is staged
  with the tenure 0 and the missing category, its segment being derived before the
  repair.
\<close>

theorem loyal_segment_counterexample:
  "(case clean_frame pandas2
          (sample_frame [StrC ''7590-VHVEG''] [IntC 101] [NumC (Fin 20)] [NumC (Fin 2020)]
             [StrC ''Yes'']) of
      Inl _ \<Rightarrow> False
    | Inr (out, rep) \<Rightarrow>
        map_of out ''tenure'' = Some [IntC 101] \<and>
        map_of out ''customer_segment'' = Some [StrC ''nan''])
   \<and> (case clean_frame pandas3
          (sample_frame [StrC ''7590-VHVEG''] [IntC 101] [NumC (Fin 20)] [NumC (Fin 2020)]
             [StrC ''Yes'']) of
      Inl _ \<Rightarrow> False
    | Inr (out, rep) \<Rightarrow>
        map_of out ''tenure'' = Some [IntC 101] \<and>
        map_of out ''customer_segment'' = Some [NaN])
   \<and> (case clean_frame pandas2
          (sample_frame [StrC ''7590-VHVEG''] [StrC ''-3''] [NumC (Fin 20)] [NumC (Fin 2020)]
             [StrC ''Yes'']) of
      Inl _ \<Rightarrow> False
    | Inr (out, rep) \<Rightarrow>
        map_of out ''tenure'' = Some [IntC 0] \<and>
        map_of out ''customer_segment'' = Some [StrC ''nan''])"
  by code_simp

text \<open>
  C6 (as amended). The average monthly revenue of a staged record is computed before the
  range repair, from the converted values: it is the total charge divided by the tenure
  where the staged tenure is positive (such a tenure was not altered), and where the
  staged tenure is 0 it is the converted monthly charge, which is the staged monthly
  charge unless that one was negative and has been raised to 0.
\<close>

theorem average_monthly_revenue:
  assumes "clean_frame lib df = Inr (out, rep)" and "rectangular df"
  shows "\<exists>ids t tc m.
      map_of (standardize_columns df) ''customer_id'' = Some ids \<and>
      map_of (standardize_columns df) ''tenure'' = Some t \<and>
      map_of (standardize_columns df) ''total_charges'' = Some tc \<and>
      map_of (standardize_columns df) ''monthly_charges'' = Some m \<and>
      length tc = length t \<and> length m = length t \<and>
      map_of out ''tenure'' =
        Some (map (\<lambda>c. IntC (max 0 (tenure_value lib c))) (first_rows ids t)) \<and>
      map_of out ''total_charges'' =
        Some (map (\<lambda>c. NumC (total_value lib c)) (first_rows ids tc)) \<and>
      map_of out ''monthly_charges'' =
        Some (map (\<lambda>c. NumC (max 0 (charge_value lib c))) (first_rows ids m)) \<and>
      map_of out ''avg_monthly_revenue'' =
        Some (map (\<lambda>(a, b, c).
                 NumC (if 0 < max 0 (tenure_value lib a)
                       then quotient (total_value lib b) (max 0 (tenure_value lib a))
                       else charge_value lib c))
               (first_rows ids (zip t (zip tc m)))) \<and>
      list_all (\<lambda>c. 0 \<le> charge_value lib c \<longrightarrow> max 0 (charge_value lib c) = charge_value lib c)
        (first_rows ids m)"
proof -
  from clean_frame_columns [OF assms] obtain ids t m tc where
    a: "map_of (standardize_columns df) ''customer_id'' = Some ids"
      "map_of (standardize_columns df) ''tenure'' = Some t"
      "map_of (standardize_columns df) ''total_charges'' = Some tc"
      "map_of (standardize_columns df) ''monthly_charges'' = Some m" and
    l: "length t = nrows df" "length m = nrows df" "length tc = nrows df" and
    o: "map_of out ''tenure'' =
        Some (map (\<lambda>c. IntC (max 0 (tenure_value lib c))) (first_rows ids t))"
      "map_of out ''total_charges'' =
        Some (map (\<lambda>c. NumC (total_value lib c)) (first_rows ids tc))"
      "map_of out ''monthly_charges'' =
        Some (map (\<lambda>c. NumC (max 0 (charge_value lib c))) (first_rows ids m))" and
    v: "map_of out ''avg_monthly_revenue'' =
        Some (map (\<lambda>(a, b, c). NumC (if 0 < tenure_value lib a
                                     then quotient (total_value lib b) (tenure_value lib a)
                                     else charge_value lib c))
               (first_rows ids (zip t (zip tc m))))"
    by (elim exE conjE) (rule that; assumption)
  have len: "length tc = length t" "length m = length t" using l by simp_all
  have e: "(\<lambda>(a, b, c). NumC (if 0 < tenure_value lib a
                                     then quotient (total_value lib b) (tenure_value lib a)
                                     else charge_value lib c))
         = (\<lambda>(a, b, c). NumC (if 0 < max 0 (tenure_value lib a)
                       then quotient (total_value lib b) (max 0 (tenure_value lib a))
                       else charge_value lib c))"
    by (auto simp: fun_eq_iff max_def)
  have w: "map_of out ''avg_monthly_revenue'' =
        Some (map (\<lambda>(a, b, c).
                 NumC (if 0 < max 0 (tenure_value lib a)
                       then quotient (total_value lib b) (max 0 (tenure_value lib a))
                       else charge_value lib c))
               (first_rows ids (zip t (zip tc m))))"
    using v unfolding e .
  have p: "list_all (\<lambda>c. 0 \<le> charge_value lib c \<longrightarrow> max 0 (charge_value lib c) = charge_value lib c)
        (first_rows ids m)"
    by (simp add: list_all_iff max_def)
  show ?thesis
    apply (rule exI [of _ ids], rule exI [of _ t], rule exI [of _ tc], rule exI [of _ m])
    apply (intro conjI)
    apply (fact a len o w p)+
    done
qed

text \<open>
  The theorem at three raw records: one with tenure \<open>0\<close>, a single space for the total
  charges and \<open>29.85\<close> for the monthly charges, whose total charge becomes 0, whose
  average monthly revenue is 29.85 and whose segment is \<open>New\<close>; one with tenure 2 and
  total charges \<open>100.5\<close>, whose average is 50.25; and one with tenure
  \<open>9223372036854775808\<close>, staged with tenure 0, whose average is its monthly charge.
\<close>

theorem average_monthly_revenue_witness:
  "\<exists>out rep.
     clean_frame pandas2
       (sample_frame [StrC ''4472-LVYGI'', StrC ''5575-GNVDE'', StrC ''3668-QPYBK'']
          [StrC ''0'', IntC 2, StrC ''9223372036854775808'']
          [StrC ''29.85'', StrC ''56.95'', StrC ''53.85'']
          [StrC '' '', StrC ''100.5'', StrC ''108.15'']
          [StrC ''Yes'', StrC ''No'', StrC ''No'']) = Inr (out, rep)
     \<and> map_of out ''tenure'' = Some [IntC 0, IntC 2, IntC 0]
     \<and> map_of out ''total_charges'' = Some [NumC 0, NumC (Fin 100.5), NumC (Fin 108.15)]
     \<and> map_of out ''avg_monthly_revenue'' =
          Some [NumC (Fin 29.85), NumC (Fin 50.25), NumC (Fin 53.85)]
     \<and> map_of out ''customer_segment'' = Some [StrC ''New'', StrC ''New'', StrC ''nan'']
     \<and> (\<exists>ids t tc m. map_of out ''avg_monthly_revenue'' =
        Some (map (\<lambda>(a, b, c).
                 NumC (if 0 < max 0 (tenure_value pandas2 a)
                       then quotient (total_value pandas2 b) (max 0 (tenure_value pandas2 a))
                       else charge_value pandas2 c))
               (first_rows ids (zip t (zip tc m))))
          \<and> list_all (\<lambda>c. 0 \<le> charge_value pandas2 c \<longrightarrow>
                          max 0 (charge_value pandas2 c) = charge_value pandas2 c)
               (first_rows ids m))"
proof -
  let ?df = "sample_frame [StrC ''4472-LVYGI'', StrC ''5575-GNVDE'', StrC ''3668-QPYBK'']
          [StrC ''0'', IntC 2, StrC ''9223372036854775808'']
          [StrC ''29.85'', StrC ''56.95'', StrC ''53.85'']
          [StrC '' '', StrC ''100.5'', StrC ''108.15'']
          [StrC ''Yes'', StrC ''No'', StrC ''No'']"
  have "case clean_frame pandas2 ?df of Inl _ \<Rightarrow> False
       | Inr (out, rep) \<Rightarrow>
           map_of out ''tenure'' = Some [IntC 0, IntC 2, IntC 0]
         \<and> map_of out ''total_charges'' = Some [NumC 0, NumC (Fin 100.5), NumC (Fin 108.15)]
         \<and> map_of out ''avg_monthly_revenue'' =
              Some [NumC (Fin 29.85), NumC (Fin 50.25), NumC (Fin 53.85)]
         \<and> map_of out ''customer_segment'' = Some [StrC ''New'', StrC ''New'', StrC ''nan'']"
    by code_simp
  then obtain out rep where h: "clean_frame pandas2 ?df = Inr (out, rep)"
    and v: "map_of out ''tenure'' = Some [IntC 0, IntC 2, IntC 0]"
       "map_of out ''total_charges'' = Some [NumC 0, NumC (Fin 100.5), NumC (Fin 108.15)]"
       "map_of out ''avg_monthly_revenue'' =
          Some [NumC (Fin 29.85), NumC (Fin 50.25), NumC (Fin 53.85)]"
       "map_of out ''customer_segment'' = Some [StrC ''New'', StrC ''New'', StrC ''nan'']"
    by (cases "clean_frame pandas2 ?df") (auto split: prod.splits)
  have r: "rectangular ?df" by code_simp
  have ex: "\<exists>ids t tc m. map_of out ''avg_monthly_revenue'' =
        Some (map (\<lambda>(a, b, c).
                 NumC (if 0 < max 0 (tenure_value pandas2 a)
                       then quotient (total_value pandas2 b) (max 0 (tenure_value pandas2 a))
                       else charge_value pandas2 c))
               (first_rows ids (zip t (zip tc m))))
          \<and> list_all (\<lambda>c. 0 \<le> charge_value pandas2 c \<longrightarrow>
                          max 0 (charge_value pandas2 c) = charge_value pandas2 c)
               (first_rows ids m)"
    using average_monthly_revenue [OF h r] by (elim exE conjE) (intro exI conjI; assumption)
  show ?thesis
    apply (rule exI [of _ out], rule exI [of _ rep])
    apply (intro conjI)
    apply (fact h v ex)+
    done
qed

text \<open>
  C6 as stated fails for a record whose monthly charge is repaired: the raw record with
  tenure \<open>0\<close> and the monthly charge \<open>-5.5\<close> is staged with tenure 0 and monthly
  charge 0, and its average monthly revenue is -5.5, not the monthly charge.
\<close>

theorem average_monthly_revenue_counterexample:
  "case clean_frame pandas2
          (sample_frame [StrC ''7590-VHVEG''] [StrC ''0''] [StrC ''-5.5''] [StrC '' '']
             [StrC ''Yes'']) of
     Inl _ \<Rightarrow> False
   | Inr (out, rep) \<Rightarrow>
       map_of out ''tenure'' = Some [IntC 0] \<and>
       map_of out ''monthly_charges'' = Some [NumC 0] \<and>
       map_of out ''total_charges'' = Some [NumC 0] \<and>
       map_of out ''avg_monthly_revenue'' = Some [NumC (Fin (- 5.5))] \<and>
       \<not> map_of out ''avg_monthly_revenue'' = map_of out ''monthly_charges''"
  by code_simp

text \<open>
  C3 (as amended). No value of a boolean field fails the run. In the fields partner,
  dependents, phone service and paperless billing, \<open>Yes\<close> becomes true, \<open>No\<close>,
  \<open>No phone service\<close> and \<open>No internet service\<close> become false and every other raw
  value becomes the missing value; in the churn field \<open>Yes\<close> becomes true, \<open>No\<close>
  false and every other raw value the missing value.
\<close>

theorem boolean_coercion:
  assumes "clean_frame lib df = Inr (out, rep)" and "rectangular df"
  shows "\<exists>ids p d ph pb ch.
      map_of (standardize_columns df) ''customer_id'' = Some ids \<and>
      map_of (standardize_columns df) ''partner'' = Some p \<and>
      map_of (standardize_columns df) ''dependents'' = Some d \<and>
      map_of (standardize_columns df) ''phone_service'' = Some ph \<and>
      map_of (standardize_columns df) ''paperless_billing'' = Some pb \<and>
      map_of (standardize_columns df) ''churn'' = Some ch \<and>
      (let flag = (\<lambda>c. if c = StrC ''Yes'' then BoolC True
                        else if c = StrC ''No'' \<or> c = StrC ''No phone service''
                                \<or> c = StrC ''No internet service''
                        then BoolC False else NaN)
       in map_of out ''partner'' = Some (map flag (first_rows ids p)) \<and>
          map_of out ''dependents'' = Some (map flag (first_rows ids d)) \<and>
          map_of out ''phone_service'' = Some (map flag (first_rows ids ph)) \<and>
          map_of out ''paperless_billing'' = Some (map flag (first_rows ids pb))) \<and>
      map_of out ''churned'' =
        Some (map (\<lambda>c. if c = StrC ''Yes'' then BoolC True
                        else if c = StrC ''No'' then BoolC False else NaN)
               (first_rows ids ch))"
proof -
  from clean_frame_columns [OF assms] obtain f ids where
    f: "transform_fields lib df = Inr f" and
    i: "map_of (standardize_columns df) ''customer_id'' = Some ids" and
    o: "\<forall>c. c \<noteq> ''tenure'' \<longrightarrow> c \<noteq> ''monthly_charges'' \<longrightarrow>
          map_of out c = map_option (first_rows ids) (map_of f c)"
    by (elim exE conjE) (rule that; assumption)
  have cl: "cols_len (nrows df) df" using assms(2) by (simp add: rectangular_def cols_len_def)
  from transform_fields_columns [OF f cl] obtain p d ph pb ch where
    raw: "map_of (standardize_columns df) ''partner'' = Some p"
      "map_of (standardize_columns df) ''dependents'' = Some d"
      "map_of (standardize_columns df) ''phone_service'' = Some ph"
      "map_of (standardize_columns df) ''paperless_billing'' = Some pb"
      "map_of (standardize_columns df) ''churn'' = Some ch" and
    b: "map_of f ''partner'' = Some (map (map_dict boolean_mapping) p)"
      "map_of f ''dependents'' = Some (map (map_dict boolean_mapping) d)"
      "map_of f ''phone_service'' = Some (map (map_dict boolean_mapping) ph)"
      "map_of f ''paperless_billing'' = Some (map (map_dict boolean_mapping) pb)"
      "map_of f ''churned'' =
         Some (map (map_dict [(StrC ''Yes'', BoolC True), (StrC ''No'', BoolC False)]) ch)"
    by (elim exE conjE) (rule that; assumption)
  have k: "first_rows ids (map g v) = map g (first_rows ids v)" for g :: "cell \<Rightarrow> cell" and v
    by (simp add: first_rows_def keep_rows_map)
  have o1: "map_of out ''partner'' = Some (map (map_dict boolean_mapping) (first_rows ids p))"
    "map_of out ''dependents'' = Some (map (map_dict boolean_mapping) (first_rows ids d))"
    "map_of out ''phone_service'' = Some (map (map_dict boolean_mapping) (first_rows ids ph))"
    "map_of out ''paperless_billing'' = Some (map (map_dict boolean_mapping) (first_rows ids pb))"
    "map_of out ''churned'' =
       Some (map (map_dict [(StrC ''Yes'', BoolC True), (StrC ''No'', BoolC False)])
               (first_rows ids ch))"
    using o by (simp_all add: b k)
  show ?thesis
    apply (rule exI [of _ ids], rule exI [of _ p], rule exI [of _ d], rule exI [of _ ph],
        rule exI [of _ pb], rule exI [of _ ch])
    unfolding Let_def
    apply (intro conjI)
    apply (fact i raw)+
    apply (simp_all only: o1 map_dict_boolean map_dict_churn)
    done
qed

text \<open>
  The theorem at three raw rows with the partner values \<open>Yes\<close>, \<open>No\<close> and
  \<open>No phone service\<close>.
\<close>

theorem boolean_coercion_witness:
  "\<exists>out rep.
     clean_frame pandas2
       (sample_frame [StrC ''a'', StrC ''b'', StrC ''c''] [IntC 1, IntC 2, IntC 3]
          [IntC 20, IntC 20, IntC 20] [IntC 20, IntC 40, IntC 60]
          [StrC ''Yes'', StrC ''No'', StrC ''No phone service'']) = Inr (out, rep)
     \<and> map_of out ''partner'' = Some [BoolC True, BoolC False, BoolC False]
     \<and> map_of out ''churned'' = Some [BoolC False, BoolC False, BoolC False]
     \<and> (\<exists>ids ch. map_of out ''churned'' =
        Some (map (\<lambda>c. if c = StrC ''Yes'' then BoolC True
                        else if c = StrC ''No'' then BoolC False else NaN)
               (first_rows ids ch)))"
proof -
  let ?df = "sample_frame [StrC ''a'', StrC ''b'', StrC ''c''] [IntC 1, IntC 2, IntC 3]
          [IntC 20, IntC 20, IntC 20] [IntC 20, IntC 40, IntC 60]
          [StrC ''Yes'', StrC ''No'', StrC ''No phone service'']"
  have "case clean_frame pandas2 ?df of Inl _ \<Rightarrow> False
       | Inr (out, rep) \<Rightarrow>
           map_of out ''partner'' = Some [BoolC True, BoolC False, BoolC False]
         \<and> map_of out ''churned'' = Some [BoolC False, BoolC False, BoolC False]"
    by code_simp
  then obtain out rep where h: "clean_frame pandas2 ?df = Inr (out, rep)"
    and v: "map_of out ''partner'' = Some [BoolC True, BoolC False, BoolC False]"
       "map_of out ''churned'' = Some [BoolC False, BoolC False, BoolC False]"
    by (cases "clean_frame pandas2 ?df") (auto split: prod.splits)
  have r: "rectangular ?df" by code_simp
  have ex: "\<exists>ids ch. map_of out ''churned'' =
        Some (map (\<lambda>c. if c = StrC ''Yes'' then BoolC True
                        else if c = StrC ''No'' then BoolC False else NaN)
               (first_rows ids ch))"
    using boolean_coercion [OF h r] by (elim exE conjE) (intro exI conjI; assumption)
  show ?thesis
    apply (rule exI [of _ out], rule exI [of _ rep])
    apply (intro conjI)
    apply (fact h v ex)+
    done
qed

text \<open>
  C3 as stated fails: with the partner value \<open>Maybe\<close> the transformation returns, the
  record is kept and its partner field is the missing value.
\<close>

theorem boolean_coercion_counterexample:
  "case clean_frame pandas2
          (sample_frame [StrC ''7590-VHVEG''] [IntC 1] [NumC (Fin 20)] [NumC (Fin 20)] [StrC ''Maybe'']) of
     Inl _ \<Rightarrow> False
   | Inr (out, rep) \<Rightarrow> map_of out ''partner'' = Some [NaN] \<and> final_rows rep = 1"
  by code_simp

section \<open>The caller's frame\<close>

lemma in_place_Inr:
  "in_place h r f = Inr h' \<longleftrightarrow> (\<exists>g. f (objs h r) = Inr g \<and> h' = h\<lparr>objs := (objs h)(r := g)\<rparr>)"
  by (auto simp: in_place_def ebind_Inr)

lemma in_place_with_Inr:
  "in_place_with h r f = Inr (h', x) \<longleftrightarrow>
     (\<exists>g. f (objs h r) = Inr (g, x) \<and> h' = h\<lparr>objs := (objs h)(r := g)\<rparr>)"
  by (auto simp: in_place_with_def ebind_Inr)

lemma clean_and_transform_steps:
  assumes "clean_and_transform lib h df = Inr (h', out, rep)"
  shows "\<exists>f5 dups g bt bc.
      transform_fields lib (objs h df) = Inr f5 \<and>
      count_duplicates f5 = Inr dups \<and>
      (if 0 < dups then remove_duplicates f5 else Inr f5) = Inr g \<and>
      repair_ranges g = Inr (objs h' out, bt, bc) \<and>
      summarize (nrows (objs h df)) dups bt bc (objs h' out) = Inr rep \<and>
      out = (if 0 < dups then Suc (next_ref h) else next_ref h) \<and>
      (\<forall>r. r < next_ref h \<longrightarrow> objs h' r = objs h r)"
  using assms
  unfolding clean_and_transform_def alloc_def transform_fields_def
  by (auto simp: ebind_Inr in_place_Inr in_place_with_Inr Let_def split: if_splits prod.splits)

text \<open>
  The frame that \<open>clean_and_transform\<close> returns on the heap, and the figures it logs,
  are those of \<open>clean_frame\<close> on the frame it was handed.
\<close>

lemma clean_and_transform_frame:
  assumes "clean_and_transform lib h df = Inr (h', out, rep)"
  shows "clean_frame lib (objs h df) = Inr (objs h' out, rep)"
proof -
  from clean_and_transform_steps [OF assms] obtain f5 dups g bt bc where
    "transform_fields lib (objs h df) = Inr f5"
    "count_duplicates f5 = Inr dups"
    "(if 0 < dups then remove_duplicates f5 else Inr f5) = Inr g"
    "repair_ranges g = Inr (objs h' out, bt, bc)"
    "summarize (nrows (objs h df)) dups bt bc (objs h' out) = Inr rep"
    by (elim exE conjE) (rule that; assumption)
  then show ?thesis
    by (simp add: clean_frame_def validate_quality_def ebind_def)
qed

text \<open>
  C10. When \<open>clean_and_transform\<close> returns, the object it was handed holds the frame
  it held before the call, and so does every other object that was in use; the result is
  an object that did not exist before.
\<close>

theorem input_frame_untouched:
  assumes "clean_and_transform lib h df = Inr (h', out, rep)" and "df < next_ref h"
  shows "objs h' df = objs h df \<and>
         (\<forall>r. r < next_ref h \<longrightarrow> objs h' r = objs h r) \<and>
         next_ref h \<le> out \<and>
         clean_frame lib (objs h df) = Inr (objs h' out, rep)"
proof -
  from clean_and_transform_steps [OF assms(1)] obtain dups :: nat where
    o: "out = (if 0 < dups then Suc (next_ref h) else next_ref h)" and
    u: "\<forall>r. r < next_ref h \<longrightarrow> objs h' r = objs h r"
    by (elim exE conjE) (erule (1) that)
  from u assms(2) have "objs h' df = objs h df" by simp
  moreover from o have "next_ref h \<le> out" by simp
  moreover note u clean_and_transform_frame [OF assms(1)]
  ultimately show ?thesis by (intro conjI)
qed

text \<open>
  The theorem at a heap with one frame of two rows that share an id and of which one has
  a negative tenure: the result is the third object, cleaned, and the first one is as it
  was.
\<close>

theorem input_frame_untouched_witness:
  "\<exists>h' out rep.
     clean_and_transform pandas2
       \<lparr>objs = (\<lambda>r. if r = 0
                     then sample_frame [StrC ''7590-VHVEG'', StrC ''7590-VHVEG''] [StrC ''-3'', IntC 2]
                            [IntC 20, IntC 30] [StrC '' '', IntC 60] [StrC ''Yes'', StrC ''No'']
                     else []),
        next_ref = 1\<rparr> 0 = Inr (h', out, rep)
     \<and> out = 2
     \<and> map_of (objs h' out) ''tenure'' = Some [IntC 0]
     \<and> objs h' 0 = sample_frame [StrC ''7590-VHVEG'', StrC ''7590-VHVEG''] [StrC ''-3'', IntC 2]
                            [IntC 20, IntC 30] [StrC '' '', IntC 60] [StrC ''Yes'', StrC ''No'']"
proof -
  let ?f = "sample_frame [StrC ''7590-VHVEG'', StrC ''7590-VHVEG''] [StrC ''-3'', IntC 2]
                            [IntC 20, IntC 30] [StrC '' '', IntC 60] [StrC ''Yes'', StrC ''No'']"
  let ?h = "\<lparr>objs = (\<lambda>r. if r = 0 then ?f else []), next_ref = 1\<rparr>"
  have "case clean_and_transform pandas2 ?h 0 of Inl _ \<Rightarrow> False
       | Inr (h', out, rep) \<Rightarrow> out = 2 \<and> map_of (objs h' out) ''tenure'' = Some [IntC 0]"
    by code_simp
  then obtain h' out rep where h: "clean_and_transform pandas2 ?h 0 = Inr (h', out, rep)"
    and v: "out = 2" "map_of (objs h' out) ''tenure'' = Some [IntC 0]"
    by (cases "clean_and_transform pandas2 ?h 0") (auto split: prod.splits)
  have r: "0 < next_ref ?h" by simp
  from input_frame_untouched [OF h r] have "objs h' 0 = objs ?h 0" by (elim conjE)
  then have u: "objs h' 0 = ?f" by simp
  show ?thesis
    apply (rule exI [of _ h'], rule exI [of _ out], rule exI [of _ rep])
    apply (intro conjI)
    apply (fact h v u)+
    done
qed

section \<open>Properties of the staging store\<close>

lemma select_cols_map_of:
  "select_cols df cs = Inr sel \<Longrightarrow> c \<in> set cs \<Longrightarrow> map_of sel c = map_of df c"
proof (induction cs arbitrary: sel)
  case Nil
  then show ?case by simp
next
  case (Cons x xs)
  from Cons.prems(1) obtain v r where v: "map_of df x = Some v"
    and r: "select_cols df xs = Inr r" and s: "sel = (x, v) # r"
    by (auto simp: ebind_Inr get_col_Inr)
  show ?case
  proof (cases "c = x")
    case True
    with v s show ?thesis by simp
  next
    case False
    with Cons.prems(2) have "c \<in> set xs" by simp
    with Cons.IH [OF r] False s show ?thesis by simp
  qed
qed

lemma select_cols_delete:
  "select_cols df1 cs = Inr s1 \<Longrightarrow> select_cols df2 cs = Inr s2 \<Longrightarrow>
   (\<And>c. c \<noteq> k \<Longrightarrow> map_of df1 c = map_of df2 c) \<Longrightarrow>
   AList.delete k s1 = AList.delete k s2"
proof (induction cs arbitrary: s1 s2)
  case Nil
  then show ?case by simp
next
  case (Cons x xs)
  from Cons.prems(1) obtain v1 r1 where 1: "map_of df1 x = Some v1"
    "select_cols df1 xs = Inr r1" "s1 = (x, v1) # r1"
    by (auto simp: ebind_Inr get_col_Inr)
  from Cons.prems(2) obtain v2 r2 where 2: "map_of df2 x = Some v2"
    "select_cols df2 xs = Inr r2" "s2 = (x, v2) # r2"
    by (auto simp: ebind_Inr get_col_Inr)
  have ih: "AList.delete k r1 = AList.delete k r2"
    using Cons.IH [OF 1(2) 2(2)] Cons.prems(3) by blast
  show ?case
  proof (cases "x = k")
    case True
    with ih 1(3) 2(3) show ?thesis by (simp add: AList.delete_eq)
  next
    case False
    with Cons.prems(3) 1(1) 2(1) have "v1 = v2" by fastforce
    with False ih 1(3) 2(3) show ?thesis by (auto simp: AList.delete_eq)
  qed
qed

lemma load_to_silver_Inr:
  assumes "load_to_silver now df st = Inr (df', st')"
  shows "\<exists>sel. select_cols (set_col df ''ingestion_timestamp'' (replicate (nrows df) (TimeC now)))
                  column_order = Inr sel \<and>
               st' = st(''silver.customers_staging'' := Some sel) \<and>
               df' = set_col df ''ingestion_timestamp'' (replicate (nrows df) (TimeC now))"
  using assms by (auto simp: load_to_silver_def Let_def ebind_Inr)

lemma transformation_main_Inr:
  assumes "transformation_main ddl write_json now lib df_raw st fs = Inr (st', fs', rep, v)"
  shows "\<exists>out st_d sel.
      clean_frame lib df_raw = Inr (out, rep) \<and> ddl st = Inr st_d \<and>
      select_cols (set_col out ''ingestion_timestamp'' (replicate (nrows out) (TimeC now)))
         column_order = Inr sel \<and>
      st' = st_d(''silver.customers_staging'' := Some sel) \<and>
      validate_silver_data write_json st' fs = Inr (fs', v)"
  using assms unfolding transformation_main_def
  by (auto simp: ebind_Inr dest!: load_to_silver_Inr split: prod.splits)

lemma clean_frame_final_rows:
  "clean_frame lib df = Inr (out, rep) \<Longrightarrow> final_rows rep = nrows out"
  unfolding clean_frame_def validate_quality_def summarize_def
  by (auto simp: ebind_Inr split: prod.splits)

text \<open>
  C7 (as amended). Two runs of the transformation on the same raw frame, the second on
  the store the first one left, stage the same table but for the column
  \<open>ingestion_timestamp\<close>, which holds in every row the clock reading of the run that
  wrote it. The table of the second run has the rows of that run only, whatever the store
  held before; where the two clock readings are equal the two tables are equal.
\<close>

theorem rerun_replaces_staging:
  assumes "transformation_main ddl write_json t1 lib df_raw st0 fs0 = Inr (st1, fs1, rep1, v1)"
    and "transformation_main ddl write_json t2 lib df_raw st1 fs1 = Inr (st2, fs2, rep2, v2)"
  shows "\<exists>tab1 tab2.
      st1 ''silver.customers_staging'' = Some tab1 \<and>
      st2 ''silver.customers_staging'' = Some tab2 \<and>
      AList.delete ''ingestion_timestamp'' tab1 = AList.delete ''ingestion_timestamp'' tab2 \<and>
      map_of tab1 ''ingestion_timestamp'' = Some (replicate (final_rows rep1) (TimeC t1)) \<and>
      map_of tab2 ''ingestion_timestamp'' = Some (replicate (final_rows rep2) (TimeC t2)) \<and>
      rep1 = rep2 \<and> (t1 = t2 \<longrightarrow> tab1 = tab2)"
proof -
  from transformation_main_Inr [OF assms(1)] obtain out1 d1 sel1 where
    1: "clean_frame lib df_raw = Inr (out1, rep1)"
       "select_cols (set_col out1 ''ingestion_timestamp'' (replicate (nrows out1) (TimeC t1)))
         column_order = Inr sel1"
       "st1 = d1(''silver.customers_staging'' := Some sel1)"
    by (elim exE conjE) (rule that; assumption)
  from transformation_main_Inr [OF assms(2)] obtain out2 d2 sel2 where
    2: "clean_frame lib df_raw = Inr (out2, rep2)"
       "select_cols (set_col out2 ''ingestion_timestamp'' (replicate (nrows out2) (TimeC t2)))
         column_order = Inr sel2"
       "st2 = d2(''silver.customers_staging'' := Some sel2)"
    by (elim exE conjE) (rule that; assumption)
  from 1(1) 2(1) have eq: "out2 = out1" "rep2 = rep1" by simp_all
  have n: "final_rows rep1 = nrows out1" using 1(1) by (rule clean_frame_final_rows)
  have a: "st1 ''silver.customers_staging'' = Some sel1" using 1(3) by simp
  have b: "st2 ''silver.customers_staging'' = Some sel2" using 2(3) by simp
  have c: "AList.delete ''ingestion_timestamp'' sel1 = AList.delete ''ingestion_timestamp'' sel2"
    using 1(2) 2(2) [unfolded eq]
    by (rule select_cols_delete) (simp add: map_of_set_col)
  have d: "map_of sel1 ''ingestion_timestamp'' = Some (replicate (final_rows rep1) (TimeC t1))"
    using select_cols_map_of [OF 1(2), of "''ingestion_timestamp''"]
    by (simp add: column_order_def map_of_set_col n)
  have e: "map_of sel2 ''ingestion_timestamp'' = Some (replicate (final_rows rep2) (TimeC t2))"
    using select_cols_map_of [OF 2(2), of "''ingestion_timestamp''"]
    by (simp add: column_order_def map_of_set_col n eq)
  have f: "rep1 = rep2" using eq by simp
  have g: "t1 = t2 \<longrightarrow> sel1 = sel2" using 1(2) 2(2) eq by auto
  show ?thesis
    apply (rule exI [of _ sel1], rule exI [of _ sel2])
    apply (intro conjI)
    apply (fact a b c d e f g)+
    done
qed

text \<open>
  The theorem at one raw record, run at the clock readings 1 and 2: the second run ends
  well with one record staged, stamped 2.
\<close>

theorem rerun_replaces_staging_witness:
  "\<exists>st1 fs1 rep1 v1 st2 fs2 rep2 v2.
     transformation_main Inr write_ok 1 pandas2
       (sample_frame [StrC ''7590-VHVEG''] [IntC 1] [StrC ''29.85''] [StrC ''29.85''] [StrC ''Yes''])
       (\<lambda>_. None) [] = Inr (st1, fs1, rep1, v1)
     \<and> transformation_main Inr write_ok 2 pandas2
       (sample_frame [StrC ''7590-VHVEG''] [IntC 1] [StrC ''29.85''] [StrC ''29.85''] [StrC ''Yes''])
       st1 fs1 = Inr (st2, fs2, rep2, v2)
     \<and> total_records v2 = 1
     \<and> (\<exists>tab1 tab2.
          st1 ''silver.customers_staging'' = Some tab1 \<and>
          st2 ''silver.customers_staging'' = Some tab2 \<and>
          AList.delete ''ingestion_timestamp'' tab1 = AList.delete ''ingestion_timestamp'' tab2 \<and>
          map_of tab2 ''ingestion_timestamp'' = Some (replicate (final_rows rep2) (TimeC 2)))"
proof -
  let ?df = "sample_frame [StrC ''7590-VHVEG''] [IntC 1] [StrC ''29.85''] [StrC ''29.85''] [StrC ''Yes'']"
  have "case transformation_main Inr write_ok 1 pandas2 ?df (\<lambda>_. None) [] of
          Inl _ \<Rightarrow> False
        | Inr (st1, fs1, rep1, v1) \<Rightarrow>
            (case transformation_main Inr write_ok 2 pandas2 ?df st1 fs1 of
               Inl _ \<Rightarrow> False
             | Inr (st2, fs2, rep2, v2) \<Rightarrow> total_records v2 = 1)"
    by code_simp
  then obtain st1 fs1 rep1 v1 st2 fs2 rep2 v2 where
    h1: "transformation_main Inr write_ok 1 pandas2 ?df (\<lambda>_. None) [] = Inr (st1, fs1, rep1, v1)" and
    h2: "transformation_main Inr write_ok 2 pandas2 ?df st1 fs1 = Inr (st2, fs2, rep2, v2)" and
    v: "total_records v2 = 1"
    by (auto split: sum.splits prod.splits)
  have ex: "\<exists>tab1 tab2.
          st1 ''silver.customers_staging'' = Some tab1 \<and>
          st2 ''silver.customers_staging'' = Some tab2 \<and>
          AList.delete ''ingestion_timestamp'' tab1 = AList.delete ''ingestion_timestamp'' tab2 \<and>
          map_of tab2 ''ingestion_timestamp'' = Some (replicate (final_rows rep2) (TimeC 2))"
    using rerun_replaces_staging [OF h1 h2] by (elim exE conjE) (intro exI conjI; assumption)
  show ?thesis
    apply (rule exI [of _ st1], rule exI [of _ fs1], rule exI [of _ rep1], rule exI [of _ v1],
        rule exI [of _ st2], rule exI [of _ fs2], rule exI [of _ rep2], rule exI [of _ v2])
    apply (intro conjI)
    apply (fact h1 h2 v ex)+
    done
qed

text \<open>
  C7 as stated fails: the tables staged by two runs of the same raw record at the clock
  readings 1 and 2 differ, the one holding the timestamp 1 and the other the timestamp 2.
\<close>

theorem rerun_timestamp_counterexample:
  "case transformation_main Inr write_ok 1 pandas2
          (sample_frame [StrC ''7590-VHVEG''] [IntC 1] [StrC ''29.85''] [StrC ''29.85'']
             [StrC ''Yes'']) (\<lambda>_. None) [] of
     Inl _ \<Rightarrow> False
   | Inr (st1, fs1, rep1, v1) \<Rightarrow>
       (case transformation_main Inr write_ok 2 pandas2
          (sample_frame [StrC ''7590-VHVEG''] [IntC 1] [StrC ''29.85''] [StrC ''29.85'']
             [StrC ''Yes'']) st1 fs1 of
          Inl _ \<Rightarrow> False
        | Inr (st2, fs2, rep2, v2) \<Rightarrow>
            \<not> st1 ''silver.customers_staging'' = st2 ''silver.customers_staging'' \<and>
            map_option (\<lambda>t. map_of t ''ingestion_timestamp'') (st1 ''silver.customers_staging'')
              = Some (Some [TimeC 1]) \<and>
            map_option (\<lambda>t. map_of t ''ingestion_timestamp'') (st2 ''silver.customers_staging'')
              = Some (Some [TimeC 2]))"
  by code_simp

text \<open>
  C1 (as amended). \<open>validate_silver_data\<close> queries the staged table, saves what it
  finds there to the results file and returns it: the number of records, of distinct
  customer ids, of churned records and of null ids, and the records per segment. The
  figures are compared with nothing, so no disagreement with the figures computed in
  memory fails the run: the validation returns exactly when the table and the three
  columns it queries are there, the table is not empty and the results file is written,
  and then it returns the figures of the table. It fails in three cases only: the store
  refuses a query (the table or a column it names is not there), the table is empty (the
  division for the churn rate), or the results file cannot be written.
\<close>

theorem validation_returns_persisted_counts:
  "(\<forall>t ids churned seg.
      st ''silver.customers_staging'' = Some t \<longrightarrow>
      map_of t ''customer_id'' = Some ids \<longrightarrow>
      map_of t ''churned'' = Some churned \<longrightarrow>
      map_of t ''customer_segment'' = Some seg \<longrightarrow>
      (let results = \<lparr>total_records = nrows t,
                       unique_customers = card (set ids - {NaN}),
                       churned_count = length (filter (\<lambda>c. c = BoolC True) churned),
                       null_check = length (filter (\<lambda>c. c = NaN) ids),
                       segment_distribution = segment_groups seg\<rparr>
       in validate_silver_data write_json st fs =
            (if nrows t = 0 then Inl ZeroDivisionError
             else case write_json fs validation_file results of
                    Inl e \<Rightarrow> Inl e
                  | Inr fs' \<Rightarrow> Inr (fs', results))))
   \<and> (\<forall>fs' v. validate_silver_data write_json st fs = Inr (fs', v) \<longrightarrow>
          (\<exists>t ids churned seg.
             st ''silver.customers_staging'' = Some t \<and> map_of t ''customer_id'' = Some ids \<and>
             map_of t ''churned'' = Some churned \<and> map_of t ''customer_segment'' = Some seg \<and>
             0 < nrows t \<and>
             v = \<lparr>total_records = nrows t,
                  unique_customers = card (set ids - {NaN}),
                  churned_count = length (filter (\<lambda>c. c = BoolC True) churned),
                  null_check = length (filter (\<lambda>c. c = NaN) ids),
                  segment_distribution = segment_groups seg\<rparr> \<and>
             write_json fs validation_file v = Inr fs'))
   \<and> (\<forall>e. validate_silver_data write_json st fs = Inl e \<longrightarrow>
          ((\<exists>msg. e = StoreError msg) \<and>
             (case st ''silver.customers_staging'' of
                None \<Rightarrow> True
              | Some t \<Rightarrow> map_of t ''customer_id'' = None \<or> map_of t ''churned'' = None
                           \<or> map_of t ''customer_segment'' = None))
        \<or> (e = ZeroDivisionError \<and> (\<exists>t. st ''silver.customers_staging'' = Some t \<and> nrows t = 0))
        \<or> (\<exists>v. write_json fs validation_file v = Inl e))"
proof (intro conjI allI impI)
  fix t ids churned seg
  assume a: "st ''silver.customers_staging'' = Some t" "map_of t ''customer_id'' = Some ids"
    "map_of t ''churned'' = Some churned" "map_of t ''customer_segment'' = Some seg"
  have "length (remdups (filter (\<lambda>c. \<not> c = NaN) ids)) = card (set ids - {NaN})"
    by (simp add: length_remdups_card_conv) (rule arg_cong [of _ _ card], auto)
  with a show "let results = \<lparr>total_records = nrows t,
                       unique_customers = card (set ids - {NaN}),
                       churned_count = length (filter (\<lambda>c. c = BoolC True) churned),
                       null_check = length (filter (\<lambda>c. c = NaN) ids),
                       segment_distribution = segment_groups seg\<rparr>
       in validate_silver_data write_json st fs =
            (if nrows t = 0 then Inl ZeroDivisionError
             else case write_json fs validation_file results of
                    Inl e \<Rightarrow> Inl e
                  | Inr fs' \<Rightarrow> Inr (fs', results))"
    by (simp add: validate_silver_data_def sql_column_def ebind_def Let_def)
next
  fix fs' v
  assume h: "validate_silver_data write_json st fs = Inr (fs', v)"
  then obtain t ids churned seg where
    a: "st ''silver.customers_staging'' = Some t" "map_of t ''customer_id'' = Some ids"
      "map_of t ''churned'' = Some churned" "map_of t ''customer_segment'' = Some seg"
    unfolding validate_silver_data_def sql_column_def ebind_def
    by (auto split: option.splits sum.splits)
  have c: "length (remdups (filter (\<lambda>c. \<not> c = NaN) ids)) = card (set ids - {NaN})"
    by (simp add: length_remdups_card_conv) (rule arg_cong [of _ _ card], auto)
  let ?v = "\<lparr>total_records = nrows t,
                  unique_customers = card (set ids - {NaN}),
                  churned_count = length (filter (\<lambda>c. c = BoolC True) churned),
                  null_check = length (filter (\<lambda>c. c = NaN) ids),
                  segment_distribution = segment_groups seg\<rparr>"
  from h a c have "0 < nrows t \<and> v = ?v \<and> write_json fs validation_file v = Inr fs'"
    unfolding validate_silver_data_def sql_column_def ebind_def Let_def
    by (auto split: sum.splits if_splits)
  with a show "\<exists>t ids churned seg.
             st ''silver.customers_staging'' = Some t \<and> map_of t ''customer_id'' = Some ids \<and>
             map_of t ''churned'' = Some churned \<and> map_of t ''customer_segment'' = Some seg \<and>
             0 < nrows t \<and>
             v = \<lparr>total_records = nrows t,
                  unique_customers = card (set ids - {NaN}),
                  churned_count = length (filter (\<lambda>c. c = BoolC True) churned),
                  null_check = length (filter (\<lambda>c. c = NaN) ids),
                  segment_distribution = segment_groups seg\<rparr> \<and>
             write_json fs validation_file v = Inr fs'"
    by blast
next
  fix e
  assume "validate_silver_data write_json st fs = Inl e"
  then show "((\<exists>msg. e = StoreError msg) \<and>
             (case st ''silver.customers_staging'' of
                None \<Rightarrow> True
              | Some t \<Rightarrow> map_of t ''customer_id'' = None \<or> map_of t ''churned'' = None
                           \<or> map_of t ''customer_segment'' = None))
        \<or> (e = ZeroDivisionError \<and> (\<exists>t. st ''silver.customers_staging'' = Some t \<and> nrows t = 0))
        \<or> (\<exists>v. write_json fs validation_file v = Inl e)"
    unfolding validate_silver_data_def sql_column_def ebind_def Let_def
    by (auto split: option.splits sum.splits if_splits)
qed

text \<open>
  The theorem at a staged table of two records, one of them churned and one with a null
  id: with a file system that takes the write the figures are saved and returned, and
  with one that refuses it the validation ends in that refusal.
\<close>

theorem validation_returns_persisted_counts_witness:
  "validate_silver_data write_ok
     (\<lambda>n. if n = ''silver.customers_staging''
          then Some [(''customer_id'', [StrC ''7590-VHVEG'', NaN]),
                     (''churned'', [BoolC True, BoolC False]),
                     (''customer_segment'', [StrC ''New'', StrC ''Loyal''])]
          else None) []
   = Inr ([(validation_file,
            \<lparr>total_records = 2, unique_customers = 1, churned_count = 1, null_check = 1,
             segment_distribution = [(Some ''Loyal'', 1), (Some ''New'', 1)]\<rparr>)],
          \<lparr>total_records = 2, unique_customers = 1, churned_count = 1, null_check = 1,
           segment_distribution = [(Some ''Loyal'', 1), (Some ''New'', 1)]\<rparr>)
   \<and> validate_silver_data (\<lambda>fs path v. Inl (OSError ''Permission denied''))
     (\<lambda>n. if n = ''silver.customers_staging''
          then Some [(''customer_id'', [StrC ''7590-VHVEG'', NaN]),
                     (''churned'', [BoolC True, BoolC False]),
                     (''customer_segment'', [StrC ''New'', StrC ''Loyal''])]
          else None) ()
   = Inl (OSError ''Permission denied'')"
proof -
  let ?t = "[(''customer_id'', [StrC ''7590-VHVEG'', NaN]),
                     (''churned'', [BoolC True, BoolC False]),
                     (''customer_segment'', [StrC ''New'', StrC ''Loyal''])]"
  let ?st = "\<lambda>n. if n = ''silver.customers_staging'' then Some ?t else None"
  have s: "segment_groups [StrC ''New'', StrC ''Loyal''] = [(Some ''Loyal'', 1), (Some ''New'', 1)]"
    by code_simp
  have c: "card (set [StrC ''7590-VHVEG'', NaN] - {NaN}) = 1"
    by simp
  have h: "?st ''silver.customers_staging'' = Some ?t"
    "map_of ?t ''customer_id'' = Some [StrC ''7590-VHVEG'', NaN]"
    "map_of ?t ''churned'' = Some [BoolC True, BoolC False]"
    "map_of ?t ''customer_segment'' = Some [StrC ''New'', StrC ''Loyal'']"
    by simp_all
  have 1: "validate_silver_data write_ok ?st []
   = Inr ([(validation_file,
            \<lparr>total_records = 2, unique_customers = 1, churned_count = 1, null_check = 1,
             segment_distribution = [(Some ''Loyal'', 1), (Some ''New'', 1)]\<rparr>)],
          \<lparr>total_records = 2, unique_customers = 1, churned_count = 1, null_check = 1,
           segment_distribution = [(Some ''Loyal'', 1), (Some ''New'', 1)]\<rparr>)"
    using validation_returns_persisted_counts
      [where st = ?st and write_json = write_ok and fs = "[]",
        THEN conjunct1, rule_format, OF h]
    by (simp add: nrows_def s c write_ok_def Let_def)
  have 2: "validate_silver_data (\<lambda>fs path v. Inl (OSError ''Permission denied'')) ?st ()
   = Inl (OSError ''Permission denied'')"
    using validation_returns_persisted_counts
      [where st = ?st and write_json = "\<lambda>fs path v. Inl (OSError ''Permission denied'')"
        and fs = "()", THEN conjunct1, rule_format, OF h]
    by (simp add: nrows_def Let_def)
  from 1 2 show ?thesis by (rule conjI)
qed

text \<open>
  C1 as stated fails: two records are cleaned and counted in memory and loaded, the
  staged table is then cut down to its first row, as a partial write would leave it, and
  the validation of that store returns its figures, one record, without an error.
\<close>

theorem materialization_check_counterexample:
  "case clean_frame pandas2
          (sample_frame [StrC ''7590-VHVEG'', StrC ''5575-GNVDE''] [IntC 1, IntC 34]
             [StrC ''29.85'', StrC ''56.95''] [StrC ''29.85'', StrC ''1889.5'']
             [StrC ''Yes'', StrC ''No'']) of
     Inl _ \<Rightarrow> False
   | Inr (df_clean, rep) \<Rightarrow>
       (case load_to_silver 0 df_clean (\<lambda>_. None) of
          Inl _ \<Rightarrow> False
        | Inr (_, st) \<Rightarrow>
            (case st ''silver.customers_staging'' of
               None \<Rightarrow> False
             | Some t \<Rightarrow>
                 final_rows rep = 2 \<and>
                 (case validate_silver_data write_ok
                         (st(''silver.customers_staging'' :=
                               Some (map (\<lambda>(k, v). (k, take 1 v)) t))) [] of
                    Inl _ \<Rightarrow> False
                  | Inr (fs, v) \<Rightarrow> total_records v = 1 \<and> unique_customers v = 1)))"
  by code_simp

section \<open>Missing columns\<close>







































section \<open>Properties of the gold-model statement loop\<close>

lemma startswith_lower: "startswith s p \<Longrightarrow> startswith (lower s) (lower p)"
  by (induction s p rule: startswith.induct) (simp_all add: lower_def)

lemma contains_lower: "contains s p \<Longrightarrow> contains (lower s) (lower p)"
proof (induction s)
  case Nil
  then show ?case by (simp add: lower_def)
next
  case (Cons c cs)
  from Cons.prems have "startswith (c # cs) p \<or> contains cs p" by simp
  then show ?case
  proof
    assume "startswith (c # cs) p"
    then have "startswith (lower (c # cs)) (lower p)" by (rule startswith_lower)
    then show ?thesis by (simp add: lower_def)
  next
    assume "contains cs p"
    then have "contains (lower cs) (lower p)" by (rule Cons.IH)
    then show ?thesis by (simp add: lower_def)
  qed
qed

lemma lower_phrases:
  "lower ''does not exist'' = ''does not exist''"
  "lower ''already exists'' = ''already exists''"
  by (simp_all add: lower_def to_lower_def is_upper_def)

text \<open>
  C9 (as amended). A statement of the script that is run and fails is passed over, and the
  loop goes on with the next statement from the unchanged store, exactly when the message
  of the failure holds \<open>does not exist\<close> or \<open>already exists\<close> once its letters are
  lowered; every other failure is raised again and ends the run. A message that holds one
  of the two phrases as written is among those passed over.
\<close>

theorem gold_failure_handling:
  assumes "\<not> statement = []" and "\<not> startswith statement ''--''"
    and "exec st statement = Inl msg"
  shows "run_statements exec (statement # rest) st =
           (if contains (lower msg) ''does not exist'' \<or> contains (lower msg) ''already exists''
            then run_statements exec rest st else Inl (StoreError msg))
         \<and> (contains msg ''already exists'' \<or> contains msg ''does not exist''
              \<longrightarrow> run_statements exec (statement # rest) st = run_statements exec rest st)"
proof -
  have a: "contains msg ''already exists'' \<Longrightarrow> contains (lower msg) ''already exists''"
    using contains_lower [of msg "''already exists''"] by (simp only: lower_phrases)
  have b: "contains msg ''does not exist'' \<Longrightarrow> contains (lower msg) ''does not exist''"
    using contains_lower [of msg "''does not exist''"] by (simp only: lower_phrases)
  from assms a b show ?thesis by auto
qed

text \<open>
  The theorem at a script of two statements whose first fails: with \<open>relation t already
  exists\<close> the second statement is run, with \<open>syntax error\<close> the run ends in that error.
\<close>

theorem gold_failure_handling_witness:
  "run_statements
     (\<lambda>st s. if s = ''CREATE TABLE t'' then Inl ''relation t already exists'' else Inr (Suc st))
     [''CREATE TABLE t'', ''CREATE TABLE u''] (0::nat) = Inr 1
   \<and> run_statements
     (\<lambda>st s. if s = ''CREATE TABLE t'' then Inl ''syntax error'' else Inr (Suc st))
     [''CREATE TABLE t'', ''CREATE TABLE u''] (0::nat) = Inl (StoreError ''syntax error'')"
proof -
  let ?e1 = "\<lambda>(st::nat) s.
    if s = ''CREATE TABLE t'' then Inl ''relation t already exists'' else Inr (Suc st)"
  let ?e2 = "\<lambda>(st::nat) s.
    if s = ''CREATE TABLE t'' then (Inl ''syntax error'' :: string + nat) else Inr (Suc st)"
  have 1: "run_statements ?e1 (''CREATE TABLE t'' # [''CREATE TABLE u'']) 0 =
             run_statements ?e1 [''CREATE TABLE u''] 0"
    using gold_failure_handling
      [of "''CREATE TABLE t''" ?e1 0 "''relation t already exists''" "[''CREATE TABLE u'']"]
    by (simp add: lower_def to_lower_def is_upper_def)
  have 2: "run_statements ?e2 (''CREATE TABLE t'' # [''CREATE TABLE u'']) 0 =
             Inl (StoreError ''syntax error'')"
    using gold_failure_handling
      [of "''CREATE TABLE t''" ?e2 0 "''syntax error''" "[''CREATE TABLE u'']"]
    by (simp add: lower_def to_lower_def is_upper_def)
  from 1 2 show ?thesis by simp
qed

text \<open>
  C9 as stated fails: the message \<open>relation t ALREADY EXISTS\<close> holds neither phrase, so
  it is one of the other execution errors, and yet the run goes on and ends well.
\<close>

theorem gold_failure_case_counterexample:
  "\<not> contains ''relation t ALREADY EXISTS'' ''already exists''
   \<and> \<not> contains ''relation t ALREADY EXISTS'' ''does not exist''
   \<and> run_statements (\<lambda>st s. Inl ''relation t ALREADY EXISTS'') [''CREATE TABLE t''] (0::nat)
       = Inr 0"
  by code_simp

end
